theory Spec2Isabelle
  imports Main "HOL-Library.Word"
begin

section \<open>Element types (src/treebuilder/element-type.h)\<close>

text \<open>
  The C enumeration \<^verbatim>\<open>element_type\<close>, one constructor per enumerator, in the order of
  the header. \<^verbatim>\<open>SUP\<close> is written \<open>SUP_TAG\<close> because \<open>SUP\<close> is reserved by the
  syntax of complete lattices.
\<close>

datatype (plugins only:) element_type =
  ADDRESS | AREA | ARTICLE | ASIDE | BASE | BASEFONT | BGSOUND | BLOCKQUOTE
| BODY | BR | CENTER | COL | COLGROUP | COMMAND | DATAGRID | DD | DETAILS
| DIALOG | DIR | DIV | DL | DT | EMBED | FIELDSET | FIGCAPTION | FIGURE | FOOTER
| FORM | FRAME | FRAMESET | H1 | H2 | H3 | H4 | H5 | H6 | HEAD | HEADER | HR | IFRAME
| IMAGE | IMG | INPUT | ISINDEX | LI | LINK | LISTING | MAIN | MENU | META | NAV
| NOEMBED | NOFRAMES | NOSCRIPT | OL | OPTGROUP | OPTION | P | PARAM | PLAINTEXT
| PRE | SCRIPT | SECTION | SELECT | SPACER | STYLE | SUMMARY | TBODY | TEXTAREA
| TFOOT | THEAD | TITLE | TR | UL | WBR
| APPLET | BUTTON | CAPTION | HTML | MARQUEE | OBJECT | TABLE | TD | TH
| A | B | BIG | CODE | EM | FONT | I | NOBR | S | SMALL | STRIKE | STRONG | TT | U
| LABEL | OUTPUT | RP | RT | RUBY | SPAN | SUB | SUP_TAG | VAR | XMP
| MATH | MGLYPH | MALIGNMARK | MI | MO | MN | MS | MTEXT | ANNOTATION_XML
| SVG | FOREIGNOBJECT | DESC
| UNKNOWN

text \<open>
  The integer value the C compiler gives each enumerator: the first is 0 and each
  following one is one more than its predecessor.
\<close>

primrec element_type_value :: "element_type \<Rightarrow> nat" where
  "element_type_value ADDRESS = 0"
| "element_type_value AREA = 1"
| "element_type_value ARTICLE = 2"
| "element_type_value ASIDE = 3"
| "element_type_value BASE = 4"
| "element_type_value BASEFONT = 5"
| "element_type_value BGSOUND = 6"
| "element_type_value BLOCKQUOTE = 7"
| "element_type_value BODY = 8"
| "element_type_value BR = 9"
| "element_type_value CENTER = 10"
| "element_type_value COL = 11"
| "element_type_value COLGROUP = 12"
| "element_type_value COMMAND = 13"
| "element_type_value DATAGRID = 14"
| "element_type_value DD = 15"
| "element_type_value DETAILS = 16"
| "element_type_value DIALOG = 17"
| "element_type_value DIR = 18"
| "element_type_value DIV = 19"
| "element_type_value DL = 20"
| "element_type_value DT = 21"
| "element_type_value EMBED = 22"
| "element_type_value FIELDSET = 23"
| "element_type_value FIGCAPTION = 24"
| "element_type_value FIGURE = 25"
| "element_type_value FOOTER = 26"
| "element_type_value FORM = 27"
| "element_type_value FRAME = 28"
| "element_type_value FRAMESET = 29"
| "element_type_value H1 = 30"
| "element_type_value H2 = 31"
| "element_type_value H3 = 32"
| "element_type_value H4 = 33"
| "element_type_value H5 = 34"
| "element_type_value H6 = 35"
| "element_type_value HEAD = 36"
| "element_type_value HEADER = 37"
| "element_type_value HR = 38"
| "element_type_value IFRAME = 39"
| "element_type_value IMAGE = 40"
| "element_type_value IMG = 41"
| "element_type_value INPUT = 42"
| "element_type_value ISINDEX = 43"
| "element_type_value LI = 44"
| "element_type_value LINK = 45"
| "element_type_value LISTING = 46"
| "element_type_value MAIN = 47"
| "element_type_value MENU = 48"
| "element_type_value META = 49"
| "element_type_value NAV = 50"
| "element_type_value NOEMBED = 51"
| "element_type_value NOFRAMES = 52"
| "element_type_value NOSCRIPT = 53"
| "element_type_value OL = 54"
| "element_type_value OPTGROUP = 55"
| "element_type_value OPTION = 56"
| "element_type_value P = 57"
| "element_type_value PARAM = 58"
| "element_type_value PLAINTEXT = 59"
| "element_type_value PRE = 60"
| "element_type_value SCRIPT = 61"
| "element_type_value SECTION = 62"
| "element_type_value SELECT = 63"
| "element_type_value SPACER = 64"
| "element_type_value STYLE = 65"
| "element_type_value SUMMARY = 66"
| "element_type_value TBODY = 67"
| "element_type_value TEXTAREA = 68"
| "element_type_value TFOOT = 69"
| "element_type_value THEAD = 70"
| "element_type_value TITLE = 71"
| "element_type_value TR = 72"
| "element_type_value UL = 73"
| "element_type_value WBR = 74"
| "element_type_value APPLET = 75"
| "element_type_value BUTTON = 76"
| "element_type_value CAPTION = 77"
| "element_type_value HTML = 78"
| "element_type_value MARQUEE = 79"
| "element_type_value OBJECT = 80"
| "element_type_value TABLE = 81"
| "element_type_value TD = 82"
| "element_type_value TH = 83"
| "element_type_value A = 84"
| "element_type_value B = 85"
| "element_type_value BIG = 86"
| "element_type_value CODE = 87"
| "element_type_value EM = 88"
| "element_type_value FONT = 89"
| "element_type_value I = 90"
| "element_type_value NOBR = 91"
| "element_type_value S = 92"
| "element_type_value SMALL = 93"
| "element_type_value STRIKE = 94"
| "element_type_value STRONG = 95"
| "element_type_value TT = 96"
| "element_type_value U = 97"
| "element_type_value LABEL = 98"
| "element_type_value OUTPUT = 99"
| "element_type_value RP = 100"
| "element_type_value RT = 101"
| "element_type_value RUBY = 102"
| "element_type_value SPAN = 103"
| "element_type_value SUB = 104"
| "element_type_value SUP_TAG = 105"
| "element_type_value VAR = 106"
| "element_type_value XMP = 107"
| "element_type_value MATH = 108"
| "element_type_value MGLYPH = 109"
| "element_type_value MALIGNMARK = 110"
| "element_type_value MI = 111"
| "element_type_value MO = 112"
| "element_type_value MN = 113"
| "element_type_value MS = 114"
| "element_type_value MTEXT = 115"
| "element_type_value ANNOTATION_XML = 116"
| "element_type_value SVG = 117"
| "element_type_value FOREIGNOBJECT = 118"
| "element_type_value DESC = 119"
| "element_type_value UNKNOWN = 120"

text \<open>The enumerators in the order of the header, first to last.\<close>

definition element_types :: "element_type list" where
  "element_types =
    [ADDRESS, AREA, ARTICLE, ASIDE, BASE, BASEFONT, BGSOUND, BLOCKQUOTE,
     BODY, BR, CENTER, COL, COLGROUP, COMMAND, DATAGRID, DD, DETAILS,
     DIALOG, DIR, DIV, DL, DT, EMBED, FIELDSET, FIGCAPTION, FIGURE, FOOTER,
     FORM, FRAME, FRAMESET, H1, H2, H3, H4, H5, H6, HEAD, HEADER, HR, IFRAME,
     IMAGE, IMG, INPUT, ISINDEX, LI, LINK, LISTING, MAIN, MENU, META, NAV,
     NOEMBED, NOFRAMES, NOSCRIPT, OL, OPTGROUP, OPTION, P, PARAM, PLAINTEXT,
     PRE, SCRIPT, SECTION, SELECT, SPACER, STYLE, SUMMARY, TBODY, TEXTAREA,
     TFOOT, THEAD, TITLE, TR, UL, WBR,
     APPLET, BUTTON, CAPTION, HTML, MARQUEE, OBJECT, TABLE, TD, TH,
     A, B, BIG, CODE, EM, FONT, I, NOBR, S, SMALL, STRIKE, STRONG, TT, U,
     LABEL, OUTPUT, RP, RT, RUBY, SPAN, SUB, SUP_TAG, VAR, XMP,
     MATH, MGLYPH, MALIGNMARK, MI, MO, MN, MS, MTEXT, ANNOTATION_XML,
     SVG, FOREIGNOBJECT, DESC,
     UNKNOWN]"

section \<open>The parser object (src/parser.c)\<close>

text \<open>
  Modelled from the spec: the error kinds of the public interface (the header that declares
  \<^verbatim>\<open>hubbub_error\<close> is not among the sources). \<open>HUBBUB_OK\<close>, \<open>HUBBUB_BADPARM\<close> and
  \<open>HUBBUB_INVALID\<close> are the ones parser.c names.
\<close>

datatype hubbub_error =
  HUBBUB_OK | HUBBUB_NOMEM | HUBBUB_BADPARM | HUBBUB_INVALID
| HUBBUB_ENCODINGCHANGE | HUBBUB_PAUSED | HUBBUB_REPROCESS

text \<open>
  The option selectors that parser.c switches on and passes down. A C enumeration can hold
  any integer; \<open>HUBBUB_PARSER_OPT_OTHER\<close> stands for every value that is none of the six
  named ones (the \<^verbatim>\<open>default:\<close> branch).
\<close>

datatype hubbub_parser_opttype =
  HUBBUB_PARSER_TOKEN_HANDLER | HUBBUB_PARSER_BUFFER_HANDLER
| HUBBUB_PARSER_ERROR_HANDLER | HUBBUB_PARSER_CONTENT_MODEL
| HUBBUB_PARSER_TREE_HANDLER | HUBBUB_PARSER_DOCUMENT_NODE
| HUBBUB_PARSER_OPT_OTHER int

datatype hubbub_tokeniser_opttype =
  HUBBUB_TOKENISER_TOKEN_HANDLER | HUBBUB_TOKENISER_BUFFER_HANDLER
| HUBBUB_TOKENISER_ERROR_HANDLER | HUBBUB_TOKENISER_CONTENT_MODEL

datatype hubbub_treebuilder_opttype =
  HUBBUB_TREEBUILDER_BUFFER_HANDLER | HUBBUB_TREEBUILDER_ERROR_HANDLER
| HUBBUB_TREEBUILDER_TREE_HANDLER | HUBBUB_TREEBUILDER_DOCUMENT_NODE

type_synonym uint8_t = "8 word"

text \<open>
  A call that parser.c makes into the input stream, the tokeniser or the treebuilder.
  The parser keeps them in the order it made them, so that a statement can say which
  stage ran and which did not.
\<close>

datatype 'o parser_call =
  Inputstream_append "uint8_t list option"
| Inputstream_insert "uint8_t list"
| Tokeniser_run
| Tokeniser_setopt hubbub_tokeniser_opttype 'o
| Treebuilder_setopt hubbub_treebuilder_opttype 'o
| Treebuilder_destroy

text \<open>
  \<^verbatim>\<open>struct hubbub_parser\<close>: the three component instances (\<open>'s\<close> the input stream,
  \<open>'t\<close> the tokeniser, \<open>'b\<close> the treebuilder; \<open>tb = None\<close> is the NULL pointer) and the
  calls made so far. The allocator and its client data play no part in the functions
  modelled here and are left out.
\<close>

record ('s, 't, 'b, 'o) hubbub_parser =
  stream :: 's
  tok :: 't
  tb :: "'b option"
  calls :: "'o parser_call list"

text \<open>
  The functions of the other components that parser.c calls; their code is not among the
  sources, so they are parameters. Each returns its error code and the updated
  component. The tokeniser reads the stream it was created on and pushes tokens into its
  token handler (the treebuilder, while there is one), so a run may update all three.
  Destroying the treebuilder may update the tokeniser it was attached to.
\<close>

record ('s, 't, 'b, 'o) parser_env =
  hubbub_inputstream_append :: "'s \<Rightarrow> uint8_t list option \<Rightarrow> hubbub_error \<times> 's"
  hubbub_inputstream_insert :: "'s \<Rightarrow> uint8_t list \<Rightarrow> hubbub_error \<times> 's"
  hubbub_tokeniser_run :: "'s \<times> 't \<times> 'b option \<Rightarrow> hubbub_error \<times> 's \<times> 't \<times> 'b option"
  hubbub_tokeniser_setopt :: "'t \<Rightarrow> hubbub_tokeniser_opttype \<Rightarrow> 'o \<Rightarrow> hubbub_error \<times> 't"
  hubbub_treebuilder_setopt :: "'b \<Rightarrow> hubbub_treebuilder_opttype \<Rightarrow> 'o \<Rightarrow> hubbub_error \<times> 'b"
  hubbub_treebuilder_destroy :: "'b \<Rightarrow> 't \<Rightarrow> 't"

text \<open>The calls, each recorded and applied to the component it is given.\<close>

definition call_inputstream_append ::
  "('s, 't, 'b, 'o) parser_env \<Rightarrow> ('s, 't, 'b, 'o) hubbub_parser \<Rightarrow> uint8_t list option
    \<Rightarrow> hubbub_error \<times> ('s, 't, 'b, 'o) hubbub_parser" where
  "call_inputstream_append env parser data =
     (case hubbub_inputstream_append env (stream parser) data of
        (error, s) \<Rightarrow>
          (error, parser\<lparr>stream := s, calls := calls parser @ [Inputstream_append data]\<rparr>))"

definition call_inputstream_insert ::
  "('s, 't, 'b, 'o) parser_env \<Rightarrow> ('s, 't, 'b, 'o) hubbub_parser \<Rightarrow> uint8_t list
    \<Rightarrow> hubbub_error \<times> ('s, 't, 'b, 'o) hubbub_parser" where
  "call_inputstream_insert env parser data =
     (case hubbub_inputstream_insert env (stream parser) data of
        (error, s) \<Rightarrow>
          (error, parser\<lparr>stream := s, calls := calls parser @ [Inputstream_insert data]\<rparr>))"

definition call_tokeniser_run ::
  "('s, 't, 'b, 'o) parser_env \<Rightarrow> ('s, 't, 'b, 'o) hubbub_parser
    \<Rightarrow> hubbub_error \<times> ('s, 't, 'b, 'o) hubbub_parser" where
  "call_tokeniser_run env parser =
     (case hubbub_tokeniser_run env (stream parser, tok parser, tb parser) of
        (error, s, t, b) \<Rightarrow>
          (error, parser\<lparr>stream := s, tok := t, tb := b,
                          calls := calls parser @ [Tokeniser_run]\<rparr>))"

definition call_tokeniser_setopt ::
  "('s, 't, 'b, 'o) parser_env \<Rightarrow> ('s, 't, 'b, 'o) hubbub_parser
    \<Rightarrow> hubbub_tokeniser_opttype \<Rightarrow> 'o \<Rightarrow> hubbub_error \<times> ('s, 't, 'b, 'o) hubbub_parser" where
  "call_tokeniser_setopt env parser type params =
     (case hubbub_tokeniser_setopt env (tok parser) type params of
        (error, t) \<Rightarrow>
          (error, parser\<lparr>tok := t, calls := calls parser @ [Tokeniser_setopt type params]\<rparr>))"

definition call_treebuilder_setopt ::
  "('s, 't, 'b, 'o) parser_env \<Rightarrow> ('s, 't, 'b, 'o) hubbub_parser \<Rightarrow> 'b
    \<Rightarrow> hubbub_treebuilder_opttype \<Rightarrow> 'o \<Rightarrow> hubbub_error \<times> ('s, 't, 'b, 'o) hubbub_parser" where
  "call_treebuilder_setopt env parser b type params =
     (case hubbub_treebuilder_setopt env b type params of
        (error, b') \<Rightarrow>
          (error, parser\<lparr>tb := Some b',
                          calls := calls parser @ [Treebuilder_setopt type params]\<rparr>))"

text \<open>
  \<^verbatim>\<open>hubbub_parser_setopt\<close>. A NULL \<^verbatim>\<open>parser\<close> or \<^verbatim>\<open>params\<close> is \<open>None\<close>. The result is
  the error code and the parser as the call leaves it.
\<close>

definition hubbub_parser_setopt ::
  "('s, 't, 'b, 'o) parser_env \<Rightarrow> ('s, 't, 'b, 'o) hubbub_parser option
    \<Rightarrow> hubbub_parser_opttype \<Rightarrow> 'o option
    \<Rightarrow> hubbub_error \<times> ('s, 't, 'b, 'o) hubbub_parser option" where
  "hubbub_parser_setopt env parser type params =
     (case (parser, params) of
        (Some p, Some prm) \<Rightarrow>
          (case type of
             HUBBUB_PARSER_TOKEN_HANDLER \<Rightarrow>
               (let p1 = (case tb p of
                            Some b \<Rightarrow>
                              p\<lparr>tok := hubbub_treebuilder_destroy env b (tok p), tb := None,
                                 calls := calls p @ [Treebuilder_destroy]\<rparr>
                          | None \<Rightarrow> p)
                in case call_tokeniser_setopt env p1 HUBBUB_TOKENISER_TOKEN_HANDLER prm of
                     (result, p2) \<Rightarrow> (result, Some p2))
           | HUBBUB_PARSER_BUFFER_HANDLER \<Rightarrow>
               (case tb p of
                  Some b \<Rightarrow>
                    (case call_treebuilder_setopt env p b HUBBUB_TREEBUILDER_BUFFER_HANDLER prm of
                       (result, p1) \<Rightarrow> (result, Some p1))
                | None \<Rightarrow>
                    (case call_tokeniser_setopt env p HUBBUB_TOKENISER_BUFFER_HANDLER prm of
                       (result, p1) \<Rightarrow> (result, Some p1)))
           | HUBBUB_PARSER_ERROR_HANDLER \<Rightarrow>
               (case (case tb p of
                        Some b \<Rightarrow>
                          call_treebuilder_setopt env p b HUBBUB_TREEBUILDER_ERROR_HANDLER prm
                      | None \<Rightarrow> (HUBBUB_OK, p)) of
                  (result, p1) \<Rightarrow>
                    if result = HUBBUB_OK then
                      (case call_tokeniser_setopt env p1 HUBBUB_TOKENISER_ERROR_HANDLER prm of
                         (result', p2) \<Rightarrow> (result', Some p2))
                    else (result, Some p1))
           | HUBBUB_PARSER_CONTENT_MODEL \<Rightarrow>
               (case call_tokeniser_setopt env p HUBBUB_TOKENISER_CONTENT_MODEL prm of
                  (result, p1) \<Rightarrow> (result, Some p1))
           | HUBBUB_PARSER_TREE_HANDLER \<Rightarrow>
               (case tb p of
                  Some b \<Rightarrow>
                    (case call_treebuilder_setopt env p b HUBBUB_TREEBUILDER_TREE_HANDLER prm of
                       (result, p1) \<Rightarrow> (result, Some p1))
                | None \<Rightarrow> (HUBBUB_OK, Some p))
           | HUBBUB_PARSER_DOCUMENT_NODE \<Rightarrow>
               (case tb p of
                  Some b \<Rightarrow>
                    (case call_treebuilder_setopt env p b HUBBUB_TREEBUILDER_DOCUMENT_NODE prm of
                       (result, p1) \<Rightarrow> (result, Some p1))
                | None \<Rightarrow> (HUBBUB_OK, Some p))
           | HUBBUB_PARSER_OPT_OTHER v \<Rightarrow> (HUBBUB_INVALID, Some p))
      | _ \<Rightarrow> (HUBBUB_BADPARM, parser))"

text \<open>
  \<^verbatim>\<open>hubbub_parser_parse_chunk\<close>. \<^verbatim>\<open>data\<close> and \<^verbatim>\<open>len\<close> together are the list of bytes;
  a NULL \<^verbatim>\<open>data\<close> is \<open>None\<close>.
\<close>

definition hubbub_parser_parse_chunk ::
  "('s, 't, 'b, 'o) parser_env \<Rightarrow> ('s, 't, 'b, 'o) hubbub_parser option
    \<Rightarrow> uint8_t list option \<Rightarrow> hubbub_error \<times> ('s, 't, 'b, 'o) hubbub_parser option" where
  "hubbub_parser_parse_chunk env parser data =
     (case (parser, data) of
        (Some p, Some d) \<Rightarrow>
          (case call_inputstream_append env p (Some d) of
             (error, p1) \<Rightarrow>
               if error \<noteq> HUBBUB_OK then (error, Some p1)
               else (case call_tokeniser_run env p1 of
                       (error', p2) \<Rightarrow>
                         if error' \<noteq> HUBBUB_OK then (error', Some p2)
                         else (HUBBUB_OK, Some p2)))
      | _ \<Rightarrow> (HUBBUB_BADPARM, parser))"

text \<open>
  \<^verbatim>\<open>hubbub_parser_parse_extraneous_chunk\<close> and \<^verbatim>\<open>hubbub_parser_completed\<close>: the same
  two stages, the first being an insert at the read cursor, respectively the append of
  the end-of-input marker (\<^verbatim>\<open>NULL\<close>, length 0).
\<close>

definition hubbub_parser_parse_extraneous_chunk ::
  "('s, 't, 'b, 'o) parser_env \<Rightarrow> ('s, 't, 'b, 'o) hubbub_parser option
    \<Rightarrow> uint8_t list option \<Rightarrow> hubbub_error \<times> ('s, 't, 'b, 'o) hubbub_parser option" where
  "hubbub_parser_parse_extraneous_chunk env parser data =
     (case (parser, data) of
        (Some p, Some d) \<Rightarrow>
          (case call_inputstream_insert env p d of
             (error, p1) \<Rightarrow>
               if error \<noteq> HUBBUB_OK then (error, Some p1)
               else (case call_tokeniser_run env p1 of
                       (error', p2) \<Rightarrow>
                         if error' \<noteq> HUBBUB_OK then (error', Some p2)
                         else (HUBBUB_OK, Some p2)))
      | _ \<Rightarrow> (HUBBUB_BADPARM, parser))"

definition hubbub_parser_completed ::
  "('s, 't, 'b, 'o) parser_env \<Rightarrow> ('s, 't, 'b, 'o) hubbub_parser option
    \<Rightarrow> hubbub_error \<times> ('s, 't, 'b, 'o) hubbub_parser option" where
  "hubbub_parser_completed env parser =
     (case parser of
        Some p \<Rightarrow>
          (case call_inputstream_append env p None of
             (error, p1) \<Rightarrow>
               if error \<noteq> HUBBUB_OK then (error, Some p1)
               else (case call_tokeniser_run env p1 of
                       (error', p2) \<Rightarrow>
                         if error' \<noteq> HUBBUB_OK then (error', Some p2)
                         else (HUBBUB_OK, Some p2)))
      | None \<Rightarrow> (HUBBUB_BADPARM, parser))"

subsection \<open>A small instance for running the parser functions\<close>

text \<open>
  An instance of the parameters: the stream is the list of bytes not yet tokenised, the
  tokeniser state counts the bytes it has consumed until an option is set on it and then
  holds that option's parameter, the treebuilder is a label. Appending returns the first
  given code (and appends only when that is \<open>HUBBUB_OK\<close>), a tokeniser run consumes the
  stream and returns the second.
\<close>

definition demo_env :: "hubbub_error \<Rightarrow> hubbub_error \<Rightarrow> (uint8_t list, nat, string, nat) parser_env" where
  "demo_env append_result run_result =
     \<lparr>hubbub_inputstream_append =
        (\<lambda>s data. (append_result,
           if append_result = HUBBUB_OK then s @ (case data of None \<Rightarrow> [] | Some d \<Rightarrow> d) else s)),
      hubbub_inputstream_insert = (\<lambda>s d. (HUBBUB_OK, d @ s)),
      hubbub_tokeniser_run = (\<lambda>(s, t, b). (run_result, [], t + length s, b)),
      hubbub_tokeniser_setopt = (\<lambda>t type params. (HUBBUB_OK, params)),
      hubbub_treebuilder_setopt = (\<lambda>b type params. (HUBBUB_OK, b)),
      hubbub_treebuilder_destroy = (\<lambda>b t. 0)\<rparr>"

definition demo_parser :: "(uint8_t list, nat, string, nat) hubbub_parser" where
  "demo_parser = \<lparr>stream = [], tok = 0, tb = Some ''treebuilder'', calls = []\<rparr>"

section \<open>Tokens\<close>

text \<open>
  Modelled from the spec: the token is a tagged variant (spec, Data model); the header that
  declares \<^verbatim>\<open>hubbub_token\<close> is not among the sources. The constructors carry the names
  of the \<^verbatim>\<open>HUBBUB_TOKEN_*\<close> tags that in_select.c switches on; the fields are those that
  in_select.c and perf/hubbub.c read. A \<^verbatim>\<open>hubbub_string\<close> (pointer and length) is the
  string it denotes.
\<close>

datatype hubbub_ns =
  HUBBUB_NS_NULL | HUBBUB_NS_HTML | HUBBUB_NS_MATHML | HUBBUB_NS_SVG
| HUBBUB_NS_XLINK | HUBBUB_NS_XML | HUBBUB_NS_XMLNS

record hubbub_attribute =
  attribute_ns :: hubbub_ns
  attribute_name :: string
  attribute_value :: string

record hubbub_tag =
  tag_ns :: hubbub_ns
  tag_name :: string
  attributes :: "hubbub_attribute list"
  self_closing :: bool

record hubbub_doctype =
  doctype_name :: string
  public_missing :: bool
  public_id :: string
  system_missing :: bool
  system_id :: string
  force_quirks :: bool

datatype hubbub_token =
  HUBBUB_TOKEN_DOCTYPE hubbub_doctype
| HUBBUB_TOKEN_START_TAG hubbub_tag
| HUBBUB_TOKEN_END_TAG hubbub_tag
| HUBBUB_TOKEN_COMMENT string
| HUBBUB_TOKEN_CHARACTER string
| HUBBUB_TOKEN_EOF

section \<open>The "in select" insertion mode (src/treebuilder/in_select.c)\<close>

text \<open>
  A frame of the stack of open elements: namespace, element type and the tree handler's
  node (spec, Data model). \<open>'n\<close> is the embedder's node handle (\<^verbatim>\<open>void *\<close>).
\<close>

record 'n element_context =
  ec_ns :: hubbub_ns
  ec_type :: element_type
  ec_node :: "'n"

text \<open>
  The part of the tree handler table that in_select.c calls itself: \<^verbatim>\<open>unref_node\<close>
  and the context pointer handed to it. The function returns an error code
  (include/hubbub/functypes.h).
\<close>

record ('n, 'c) hubbub_tree_handler =
  unref_node :: "'c \<Rightarrow> 'n \<Rightarrow> hubbub_error"
  ctx :: "'c"

text \<open>
  A call through the tree handler table, with the value it returned. The argument is
  \<open>None\<close> when the C variable passed was never assigned.
\<close>

datatype 'n tree_call = Unref_node "'n option" hubbub_error

text \<open>
  The treebuilder. \<open>element_stack\<close> lists the frames from the current node (the head)
  down to the bottom frame: the head is \<^verbatim>\<open>element_stack[current_node]\<close>, the last
  element is \<^verbatim>\<open>element_stack[0]\<close>. \<open>handler_calls\<close> is what the embedder has seen:
  the calls through the table, in order. \<open>other\<close> stands for the members that
  in_select.c never reads (insertion mode, formatting list, form and head pointers).
\<close>

record ('n, 'c, 'x) hubbub_treebuilder =
  element_stack :: "'n element_context list"
  tree_handler :: "('n, 'c) hubbub_tree_handler"
  handler_calls :: "'n tree_call list"
  other :: "'x"

text \<open>
  The treebuilder functions that handle_in_select calls and whose code is not among the
  sources and not described by the spec beyond their names: they are parameters.
  \<open>process_comment_append\<close> receives the node of the current frame, \<open>None\<close> when
  there is no frame to read it from.
\<close>

record ('n, 'c, 'x) treebuilder_ops =
  element_type_from_name :: "('n, 'c, 'x) hubbub_treebuilder \<Rightarrow> string \<Rightarrow> element_type"
  append_text :: "('n, 'c, 'x) hubbub_treebuilder \<Rightarrow> string \<Rightarrow> ('n, 'c, 'x) hubbub_treebuilder"
  process_comment_append ::
    "('n, 'c, 'x) hubbub_treebuilder \<Rightarrow> hubbub_token \<Rightarrow> 'n option
      \<Rightarrow> ('n, 'c, 'x) hubbub_treebuilder"
  process_tag_in_body ::
    "('n, 'c, 'x) hubbub_treebuilder \<Rightarrow> hubbub_token \<Rightarrow> ('n, 'c, 'x) hubbub_treebuilder"
  insert_element ::
    "('n, 'c, 'x) hubbub_treebuilder \<Rightarrow> hubbub_tag \<Rightarrow> ('n, 'c, 'x) hubbub_treebuilder"
  element_in_scope :: "('n, 'c, 'x) hubbub_treebuilder \<Rightarrow> element_type \<Rightarrow> bool \<Rightarrow> bool"
  reset_insertion_mode :: "('n, 'c, 'x) hubbub_treebuilder \<Rightarrow> ('n, 'c, 'x) hubbub_treebuilder"

text \<open>
  Modelled from the spec: the accessors of the stack of open elements, whose code is not
  among the sources. The stack is an ordered sequence of frames; the current node is its
  top frame and the previous node the frame below it. There is none (\<open>None\<close>) when the
  stack is too short.
\<close>

definition current_node :: "('n, 'c, 'x) hubbub_treebuilder \<Rightarrow> element_type option" where
  "current_node treebuilder =
     (case element_stack treebuilder of [] \<Rightarrow> None | e # es \<Rightarrow> Some (ec_type e))"

definition prev_node :: "('n, 'c, 'x) hubbub_treebuilder \<Rightarrow> element_type option" where
  "prev_node treebuilder =
     (case element_stack treebuilder of e # e' # es \<Rightarrow> Some (ec_type e') | _ \<Rightarrow> None)"

text \<open>
  Modelled from the spec: \<^verbatim>\<open>element_stack_pop\<close> removes the top frame and hands its
  namespace, type and node to the caller; its C result is a truth value, false (\<open>None\<close>
  here) when it could not pop, which is when there is no frame.
\<close>

definition element_stack_pop ::
  "('n, 'c, 'x) hubbub_treebuilder
    \<Rightarrow> ('n element_context \<times> ('n, 'c, 'x) hubbub_treebuilder) option" where
  "element_stack_pop treebuilder =
     (case element_stack treebuilder of
        [] \<Rightarrow> None
      | e # es \<Rightarrow> Some (e, treebuilder\<lparr>element_stack := es\<rparr>))"

text \<open>
  \<^verbatim>\<open>treebuilder->tree_handler->unref_node(treebuilder->tree_handler->ctx, node)\<close>:
  the call is made and recorded with the code it returned. When \<open>node\<close> was never
  assigned the code recorded is that of a successful call.
\<close>

definition call_unref_node ::
  "('n, 'c, 'x) hubbub_treebuilder \<Rightarrow> 'n option \<Rightarrow> hubbub_error \<times> ('n, 'c, 'x) hubbub_treebuilder" where
  "call_unref_node treebuilder node =
     (let h = tree_handler treebuilder;
          r = (case node of None \<Rightarrow> HUBBUB_OK | Some n \<Rightarrow> unref_node h (ctx h) n)
      in (r, treebuilder\<lparr>handler_calls := handler_calls treebuilder @ [Unref_node node r]\<rparr>))"

text \<open>
  Modelled from the spec: \<^verbatim>\<open>element_stack_pop_until\<close> is not among the sources. It
  removes frames from the top up to and including the first frame of the given type; the
  handler's reference on the node of a frame lasts as long as the frame, and
  \<^verbatim>\<open>unref_node\<close> follows removal (spec, Data model and Ordering guarantees), so each
  removed frame's node is released, in the order of removal. With no frame of that type
  the stack is emptied.
\<close>

fun pop_until ::
  "'n element_context list \<Rightarrow> element_type \<Rightarrow> 'n element_context list \<times> 'n element_context list" where
  "pop_until [] type = ([], [])"
| "pop_until (e # es) type =
     (if ec_type e = type then ([e], es)
      else (case pop_until es type of (popped, rest) \<Rightarrow> (e # popped, rest)))"

fun unref_all ::
  "('n, 'c, 'x) hubbub_treebuilder \<Rightarrow> 'n element_context list \<Rightarrow> ('n, 'c, 'x) hubbub_treebuilder" where
  "unref_all treebuilder [] = treebuilder"
| "unref_all treebuilder (e # es) =
     unref_all (snd (call_unref_node treebuilder (Some (ec_node e)))) es"

definition element_stack_pop_until ::
  "('n, 'c, 'x) hubbub_treebuilder \<Rightarrow> element_type \<Rightarrow> ('n, 'c, 'x) hubbub_treebuilder" where
  "element_stack_pop_until treebuilder type =
     (case pop_until (element_stack treebuilder) type of
        (popped, rest) \<Rightarrow> unref_all (treebuilder\<lparr>element_stack := rest\<rparr>) popped)"

text \<open>
  The two statements that handle_in_select repeats at each implicit close:
  \<^verbatim>\<open>if (!element_stack_pop(treebuilder, &ns, &otype, &node)) { /** \todo errors */ }\<close>
  \<^verbatim>\<open>treebuilder->tree_handler->unref_node(treebuilder->tree_handler->ctx, node);\<close>
  The second component is the local variable \<^verbatim>\<open>node\<close>: a failed pop leaves it as it
  was, and \<^verbatim>\<open>unref_node\<close> is called either way. The code that \<^verbatim>\<open>unref_node\<close>
  returns is dropped.
\<close>

definition pop_and_unref ::
  "('n, 'c, 'x) hubbub_treebuilder \<times> 'n option \<Rightarrow> ('n, 'c, 'x) hubbub_treebuilder \<times> 'n option" where
  "pop_and_unref s =
     (case s of (treebuilder, node) \<Rightarrow>
        (case (case element_stack_pop treebuilder of
                 None \<Rightarrow> (treebuilder, node)
               | Some (e, treebuilder') \<Rightarrow> (treebuilder', Some (ec_node e))) of
           (treebuilder1, node1) \<Rightarrow> (snd (call_unref_node treebuilder1 node1), node1)))"

text \<open>
  \<^verbatim>\<open>handle_in_select\<close>. The result is the C return value (true to reprocess the
  token) and the treebuilder as the call leaves it. The local \<^verbatim>\<open>node\<close> starts
  unassigned (\<open>None\<close>).
\<close>

definition handle_in_select ::
  "('n, 'c, 'x) treebuilder_ops \<Rightarrow> ('n, 'c, 'x) hubbub_treebuilder \<Rightarrow> hubbub_token
    \<Rightarrow> bool \<times> ('n, 'c, 'x) hubbub_treebuilder" where
  "handle_in_select ops treebuilder token =
     (case token of
        HUBBUB_TOKEN_CHARACTER character \<Rightarrow> (False, append_text ops treebuilder character)
      | HUBBUB_TOKEN_COMMENT comment \<Rightarrow>
          (False, process_comment_append ops treebuilder token
                    (case element_stack treebuilder of [] \<Rightarrow> None | e # es \<Rightarrow> Some (ec_node e)))
      | HUBBUB_TOKEN_DOCTYPE doctype \<Rightarrow> (False, treebuilder)
      | HUBBUB_TOKEN_START_TAG tag \<Rightarrow>
          (let type = element_type_from_name ops treebuilder (tag_name tag) in
           if type = HTML then (False, process_tag_in_body ops treebuilder token)
           else if type = OPTION then
             (let s1 = (if current_node treebuilder = Some OPTION
                        then pop_and_unref (treebuilder, None) else (treebuilder, None))
              in (False, insert_element ops (fst s1) tag))
           else if type = OPTGROUP then
             (let s1 = (if current_node treebuilder = Some OPTION
                        then pop_and_unref (treebuilder, None) else (treebuilder, None));
                  s2 = (if current_node (fst s1) = Some OPTGROUP
                        then pop_and_unref s1 else s1)
              in (False, insert_element ops (fst s2) tag))
           else if type = SELECT \<or> type = INPUT \<or> type = TEXTAREA then
             (let treebuilder1 =
                    (if element_in_scope ops treebuilder SELECT True
                     then reset_insertion_mode ops (element_stack_pop_until treebuilder SELECT)
                     else treebuilder)
              in (type \<noteq> SELECT, treebuilder1))
           else (False, treebuilder))
      | HUBBUB_TOKEN_END_TAG tag \<Rightarrow>
          (let type = element_type_from_name ops treebuilder (tag_name tag) in
           if type = OPTGROUP then
             (let s1 = (if current_node treebuilder = Some OPTION \<and>
                           prev_node treebuilder = Some OPTGROUP
                        then pop_and_unref (treebuilder, None) else (treebuilder, None));
                  s2 = (if current_node (fst s1) = Some OPTGROUP
                        then pop_and_unref s1 else s1)
              in (False, fst s2))
           else if type = OPTION then
             (let s1 = (if current_node treebuilder = Some OPTION
                        then pop_and_unref (treebuilder, None) else (treebuilder, None))
              in (False, fst s1))
           else if type = SELECT then
             (let treebuilder1 =
                    (if element_in_scope ops treebuilder SELECT True
                     then reset_insertion_mode ops (element_stack_pop_until treebuilder SELECT)
                     else treebuilder)
              in (False, treebuilder1))
           else (False, treebuilder))
      | HUBBUB_TOKEN_EOF \<Rightarrow> (False, treebuilder))"

text \<open>
  What the embedder sees when the node of frame \<open>e\<close> is released: one
  \<^verbatim>\<open>unref_node\<close> call against that node, with the code the handler returns for it.
\<close>

definition unref_of :: "('n, 'c, 'x) hubbub_treebuilder \<Rightarrow> 'n element_context \<Rightarrow> 'n tree_call" where
  "unref_of treebuilder e =
     Unref_node (Some (ec_node e))
       (unref_node (tree_handler treebuilder) (ctx (tree_handler treebuilder)) (ec_node e))"

text \<open>
  The statement of the reference balance, in the words of the spec: closing the top
  \<open>k\<close> frames removes exactly those frames from the stack and releases exactly their
  nodes, one \<^verbatim>\<open>unref_node\<close> call per removed frame, from the top down; the frames
  that stay are not touched and no other call is made.
\<close>

definition close_frames ::
  "nat \<Rightarrow> ('n, 'c, 'x) hubbub_treebuilder \<Rightarrow> ('n, 'c, 'x) hubbub_treebuilder" where
  "close_frames k treebuilder =
     treebuilder\<lparr>element_stack := drop k (element_stack treebuilder),
                  handler_calls := handler_calls treebuilder @
                    map (unref_of treebuilder) (take k (element_stack treebuilder))\<rparr>"

text \<open>
  The treebuilder functions that handle_in_select may hand the treebuilder to, for a given
  token, once its own work on the stack is done (or nothing further: the identity).
\<close>

definition handed_on ::
  "('n, 'c, 'x) treebuilder_ops \<Rightarrow> hubbub_token
    \<Rightarrow> (('n, 'c, 'x) hubbub_treebuilder \<Rightarrow> ('n, 'c, 'x) hubbub_treebuilder) set" where
  "handed_on ops token =
     {\<lambda>t. t, reset_insertion_mode ops} \<union>
     (case token of
        HUBBUB_TOKEN_CHARACTER character \<Rightarrow> {\<lambda>t. append_text ops t character}
      | HUBBUB_TOKEN_COMMENT comment \<Rightarrow>
          {\<lambda>t. process_comment_append ops t token
                 (case element_stack t of [] \<Rightarrow> None | e # es \<Rightarrow> Some (ec_node e))}
      | HUBBUB_TOKEN_START_TAG tag \<Rightarrow>
          {\<lambda>t. process_tag_in_body ops t token, \<lambda>t. insert_element ops t tag}
      | _ \<Rightarrow> {})"

subsection \<open>A small instance for running the handler\<close>

text \<open>
  An instance of the parameters on which the handler can be run: node handles are
  numbers, \<open>other\<close> holds the next unused handle and the name of the insertion mode,
  \<open>insert_element\<close> pushes a frame for a new node, \<open>element_in_scope\<close> looks for the
  type anywhere on the stack, \<open>reset_insertion_mode\<close> records the mode "in body". The
  stack of \<open>demo_treebuilder\<close> is html, body, select, option (the current node); its
  \<^verbatim>\<open>unref_node\<close> returns the given code.
\<close>

definition demo_type_from_name :: "string \<Rightarrow> element_type" where
  "demo_type_from_name name =
     (if name = ''html'' then HTML else if name = ''option'' then OPTION
      else if name = ''optgroup'' then OPTGROUP else if name = ''select'' then SELECT
      else if name = ''input'' then INPUT else if name = ''textarea'' then TEXTAREA
      else UNKNOWN)"

definition demo_ops :: "(nat, unit, nat \<times> string) treebuilder_ops" where
  "demo_ops =
     \<lparr>element_type_from_name = (\<lambda>t name. demo_type_from_name name),
      append_text = (\<lambda>t s. t),
      process_comment_append = (\<lambda>t token n. t),
      process_tag_in_body = (\<lambda>t token. t),
      insert_element = (\<lambda>t tag.
        t\<lparr>element_stack :=
             \<lparr>ec_ns = tag_ns tag, ec_type = demo_type_from_name (tag_name tag),
              ec_node = fst (other t)\<rparr> # element_stack t,
           other := (Suc (fst (other t)), snd (other t))\<rparr>),
      element_in_scope = (\<lambda>t type in_table. list_ex (\<lambda>e. ec_type e = type) (element_stack t)),
      reset_insertion_mode = (\<lambda>t. t\<lparr>other := (fst (other t), ''in body'')\<rparr>)\<rparr>"

definition demo_tag :: "string \<Rightarrow> hubbub_tag" where
  "demo_tag name = \<lparr>tag_ns = HUBBUB_NS_HTML, tag_name = name, attributes = [], self_closing = False\<rparr>"

definition demo_frame :: "element_type \<Rightarrow> nat \<Rightarrow> nat element_context" where
  "demo_frame type n = \<lparr>ec_ns = HUBBUB_NS_HTML, ec_type = type, ec_node = n\<rparr>"

definition demo_treebuilder :: "hubbub_error \<Rightarrow> (nat, unit, nat \<times> string) hubbub_treebuilder" where
  "demo_treebuilder r =
     \<lparr>element_stack = [demo_frame OPTION 4, demo_frame SELECT 3, demo_frame BODY 2, demo_frame HTML 1],
      tree_handler = \<lparr>unref_node = (\<lambda>c n. r), ctx = ()\<rparr>,
      handler_calls = [],
      other = (5, ''in select'')\<rparr>"

section \<open>The sample tree handler (perf/hubbub.c)\<close>

text \<open>
  \<^verbatim>\<open>struct attr_t\<close> and \<^verbatim>\<open>struct node_t\<close>. A node pointer is an address, a natural
  number: 0 is \<^verbatim>\<open>NULL\<close> and 1 is \<^verbatim>\<open>(void *)1\<close>, the handle that main() registers as
  the document node. The \<^verbatim>\<open>type\<close> tag and the \<^verbatim>\<open>data\<close> union are kept apart as in
  the C struct; the union is a datatype with one constructor per member. The element
  member holds namespace, name, the address of the attribute array and the number of
  attributes, so that two nodes holding the same address share the array. The content
  member (\<^verbatim>\<open>char *content\<close>, for comments and characters) is the address of the
  buffer, since \<^verbatim>\<open>append_child\<close> writes to the buffer and \<^verbatim>\<open>clone_node\<close> copies the
  address. Names and identifiers are never written once the node is made: they are the
  strings they point to; a missing public or system identifier is \<open>None\<close>.
\<close>

datatype node_type = DOCTYPE | COMMENT | ELEMENT | CHARACTER

record attr_t =
  attr_ns :: hubbub_ns
  attr_name :: string
  attr_value :: string

datatype node_data =
  Doctype_data string "string option" "string option"
| Element_data hubbub_ns string nat nat
| Content nat

record node_t =
  ntype :: node_type
  ndata :: node_data
  nnext :: nat
  nprev :: nat
  nchild :: nat
  nparent :: nat

text \<open>
  The memory of the sample handler: the nodes, the attribute arrays and the content
  buffers that have been allocated, each at its address, the global \<^verbatim>\<open>Document\<close>,
  and the next address the allocator hands out. Allocation is taken to succeed, as the C
  code takes it.
\<close>

record dom =
  nodes :: "nat \<rightharpoonup> node_t"
  attr_arrays :: "nat \<rightharpoonup> attr_t list"
  buffers :: "nat \<rightharpoonup> string"
  Document :: nat
  brk :: nat

text \<open>
  A write through a node pointer, \<^verbatim>\<open>p->field = v\<close>. Where the pointer is not the
  address of a node the C behaviour is undefined; the model stops with \<open>None\<close>.
\<close>

definition set_node :: "dom \<Rightarrow> nat \<Rightarrow> (node_t \<Rightarrow> node_t) \<Rightarrow> dom option" where
  "set_node h a f =
     (case nodes h a of None \<Rightarrow> None | Some n \<Rightarrow> Some (h\<lparr>nodes := (nodes h)(a \<mapsto> f n)\<rparr>))"

text \<open>
  The loop \<^verbatim>\<open>while (insert->next != NULL) insert = insert->next;\<close>. It does not end on
  a cyclic chain, so it is given fuel: one unit per node visited, \<open>None\<close> when the fuel
  runs out or a pointer is not the address of a node.
\<close>

fun last_sibling :: "nat \<Rightarrow> (nat \<rightharpoonup> node_t) \<Rightarrow> nat \<Rightarrow> nat option" where
  "last_sibling 0 ns ins = None"
| "last_sibling (Suc fuel) ns ins =
     (case ns ins of
        None \<Rightarrow> None
      | Some n \<Rightarrow> if nnext n \<noteq> 0 then last_sibling fuel ns (nnext n) else Some ins)"

text \<open>
  The two statements
  \<^verbatim>\<open>p = realloc(p, strlen(p) + strlen(q) + 1); strcat(p, q);\<close>
  on buffer addresses \<open>p\<close> and \<open>q\<close>. Whether \<^verbatim>\<open>realloc\<close> extends the block where
  it is or moves it is the allocator's choice, the parameter \<open>moved\<close>: a moved block
  gets the next free address and the old one is freed. The result is the new value of
  \<open>p\<close> and the memory. When \<open>p\<close> and \<open>q\<close> are the same buffer, \<^verbatim>\<open>strcat\<close> copies
  between overlapping objects, or from a freed block: the C behaviour is undefined and
  the model stops with \<open>None\<close>, as it does when an address is not that of a buffer.
\<close>

definition realloc_strcat :: "bool \<Rightarrow> dom \<Rightarrow> nat \<Rightarrow> nat \<Rightarrow> (nat \<times> dom) option" where
  "realloc_strcat moved h p q =
     (case (buffers h p, buffers h q) of
        (Some a, Some b) \<Rightarrow>
          if p = q then None
          else if moved then
            Some (brk h, h\<lparr>buffers := (buffers h)(p := None, brk h \<mapsto> a @ b),
                            brk := Suc (brk h)\<rparr>)
          else Some (p, h\<lparr>buffers := (buffers h)(p \<mapsto> a @ b)\<rparr>)
      | _ \<Rightarrow> None)"

text \<open>
  \<^verbatim>\<open>append_child\<close>. The result is the error code, \<^verbatim>\<open>*result\<close> and the memory as the
  call leaves it; \<open>None\<close> when the call dereferences a pointer that is not a node, when
  the fuel for the loop runs out, or when the concatenation is undefined.
\<close>

definition append_child ::
  "nat \<Rightarrow> bool \<Rightarrow> dom \<Rightarrow> nat \<Rightarrow> nat \<Rightarrow> (hubbub_error \<times> nat \<times> dom) option" where
  "append_child fuel moved h parent child =
     (case set_node h child (\<lambda>n. n\<lparr>nparent := parent, nnext := 0, nprev := 0\<rparr>) of
        None \<Rightarrow> None
      | Some h1 \<Rightarrow>
          (case (if parent = 1 then
                   (if Document h1 \<noteq> 0 then Some (Document h1, h1)
                    else Some (0, h1\<lparr>Document := child\<rparr>))
                 else
                   (case nodes h1 parent of
                      None \<Rightarrow> None
                    | Some tparent \<Rightarrow>
                        if nchild tparent = 0
                        then map_option (Pair 0) (set_node h1 parent (\<lambda>n. n\<lparr>nchild := child\<rparr>))
                        else Some (nchild tparent, h1))) of
             None \<Rightarrow> None
           | Some (ins0, h2) \<Rightarrow>
               if ins0 \<noteq> 0 then
                 (case last_sibling fuel (nodes h2) ins0 of
                    None \<Rightarrow> None
                  | Some ins \<Rightarrow>
                      (case (nodes h2 child, nodes h2 ins) of
                         (Some tchild, Some tins) \<Rightarrow>
                           if ntype tchild = CHARACTER \<and> ntype tins = CHARACTER then
                             (case (ndata tins, ndata tchild) of
                                (Content p, Content q) \<Rightarrow>
                                  (case realloc_strcat moved h2 p q of
                                     None \<Rightarrow> None
                                   | Some (p', h3) \<Rightarrow>
                                       (case set_node h3 ins (\<lambda>n. n\<lparr>ndata := Content p'\<rparr>) of
                                          None \<Rightarrow> None
                                        | Some h4 \<Rightarrow> Some (HUBBUB_OK, ins, h4)))
                              | _ \<Rightarrow> None)
                           else
                             (case set_node h2 ins (\<lambda>n. n\<lparr>nnext := child\<rparr>) of
                                None \<Rightarrow> None
                              | Some h3 \<Rightarrow>
                                  (case set_node h3 child (\<lambda>n. n\<lparr>nprev := ins\<rparr>) of
                                     None \<Rightarrow> None
                                   | Some h4 \<Rightarrow> Some (HUBBUB_OK, child, h4)))
                       | _ \<Rightarrow> None))
               else Some (HUBBUB_OK, child, h2)))"

text \<open>
  \<^verbatim>\<open>clone_node\<close>. \<^verbatim>\<open>calloc\<close> and \<^verbatim>\<open>*new_node = *old_node\<close> create the new node at
  the next free address as a copy of the whole struct, so the copy holds the same
  attribute array address (or content buffer address) as the original; the four links are
  then cleared. The function
  calls itself on \<^verbatim>\<open>old_node->next\<close> and on \<^verbatim>\<open>old_node->child\<close>; the fuel bounds the
  depth of these calls.
\<close>

fun clone_node :: "nat \<Rightarrow> dom \<Rightarrow> nat \<Rightarrow> bool \<Rightarrow> (hubbub_error \<times> nat \<times> dom) option" where
  "clone_node 0 h node deep = None"
| "clone_node (Suc fuel) h node deep =
     (case nodes h node of
        None \<Rightarrow> None
      | Some old_node \<Rightarrow>
          (let new_node = brk h;
               h1 = h\<lparr>nodes := (nodes h)(new_node \<mapsto>
                          old_node\<lparr>nchild := 0, nparent := 0, nnext := 0, nprev := 0\<rparr>),
                      brk := Suc (brk h)\<rparr>
           in if \<not> deep then Some (HUBBUB_OK, new_node, h1)
              else
                (case (case map_option nnext (nodes h1 node) of
                         None \<Rightarrow> None
                       | Some nx \<Rightarrow>
                           if nx \<noteq> 0 then
                             (case clone_node fuel h1 nx True of
                                None \<Rightarrow> None
                              | Some (r, n, h2) \<Rightarrow>
                                  (case set_node h2 new_node (\<lambda>x. x\<lparr>nnext := n\<rparr>) of
                                     None \<Rightarrow> None
                                   | Some h3 \<Rightarrow> set_node h3 n (\<lambda>x. x\<lparr>nprev := new_node\<rparr>)))
                           else Some h1) of
                   None \<Rightarrow> None
                 | Some h4 \<Rightarrow>
                     (case (case map_option nchild (nodes h4 node) of
                              None \<Rightarrow> None
                            | Some ch \<Rightarrow>
                                if ch \<noteq> 0 then
                                  (case clone_node fuel h4 ch True of
                                     None \<Rightarrow> None
                                   | Some (r, n, h5) \<Rightarrow>
                                       (case set_node h5 new_node (\<lambda>x. x\<lparr>nchild := n\<rparr>) of
                                          None \<Rightarrow> None
                                        | Some h6 \<Rightarrow> set_node h6 n (\<lambda>x. x\<lparr>nparent := new_node\<rparr>)))
                                else Some h4) of
                        None \<Rightarrow> None
                      | Some h7 \<Rightarrow> Some (HUBBUB_OK, new_node, h7)))))"

subsection \<open>Children of a node\<close>

text \<open>
  \<open>siblings ns a xs\<close>: following \<^verbatim>\<open>next\<close> from address \<open>a\<close> visits exactly the nodes
  \<open>xs\<close>, in this order, and then reaches \<^verbatim>\<open>NULL\<close>. The children of a parent are the
  siblings from its \<^verbatim>\<open>child\<close> pointer; those of the document handle are the siblings
  from \<^verbatim>\<open>Document\<close>.
\<close>

fun siblings :: "(nat \<rightharpoonup> node_t) \<Rightarrow> nat \<Rightarrow> nat list \<Rightarrow> bool" where
  "siblings ns a [] = (a = 0)"
| "siblings ns a (x # xs) =
     (a = x \<and> a \<noteq> 0 \<and> (case ns a of None \<Rightarrow> False | Some n \<Rightarrow> siblings ns (nnext n) xs))"

definition first_child :: "dom \<Rightarrow> nat \<Rightarrow> nat option" where
  "first_child h parent =
     (if parent = 1 then Some (Document h) else map_option nchild (nodes h parent))"

definition children :: "dom \<Rightarrow> nat \<Rightarrow> nat list \<Rightarrow> bool" where
  "children h parent xs =
     (case first_child h parent of None \<Rightarrow> False | Some f \<Rightarrow> siblings (nodes h) f xs)"

text \<open>
  The tag of a node agrees with the member of the union in use, and a content address is
  that of an allocated buffer, as for every node made by one of the \<^verbatim>\<open>create_*\<close>
  functions.
\<close>

definition consistent :: "dom \<Rightarrow> node_t \<Rightarrow> bool" where
  "consistent h n =
     (case ndata n of
        Doctype_data name public system \<Rightarrow> ntype n = DOCTYPE
      | Element_data ns name attrs n_attrs \<Rightarrow> ntype n = ELEMENT
      | Content p \<Rightarrow>
          (ntype n = COMMENT \<or> ntype n = CHARACTER) \<and>
          (case buffers h p of None \<Rightarrow> False | Some s \<Rightarrow> True))"

text \<open>
  The address of the content buffer of a node (\<open>None\<close> when it has none) and the string
  in it.
\<close>

definition buffer_of :: "dom \<Rightarrow> nat \<Rightarrow> nat option" where
  "buffer_of h a =
     (case nodes h a of
        None \<Rightarrow> None
      | Some n \<Rightarrow> (case ndata n of Content p \<Rightarrow> Some p | _ \<Rightarrow> None))"

definition content_of :: "dom \<Rightarrow> nat \<Rightarrow> string" where
  "content_of h a =
     (case buffer_of h a of
        None \<Rightarrow> []
      | Some p \<Rightarrow> (case buffers h p of None \<Rightarrow> [] | Some s \<Rightarrow> s))"

text \<open>
  The words of the coalescing rule: the appended child is a character node, the parent
  has children, and the last of them is a character node.
\<close>

definition is_character :: "dom \<Rightarrow> nat \<Rightarrow> bool" where
  "is_character h a = (case nodes h a of None \<Rightarrow> False | Some n \<Rightarrow> ntype n = CHARACTER)"

definition coalesces :: "dom \<Rightarrow> nat list \<Rightarrow> nat \<Rightarrow> bool" where
  "coalesces h xs child = (xs \<noteq> [] \<and> is_character h child \<and> is_character h (last xs))"

subsection \<open>A small document\<close>

text \<open>
  The memory after the handler has built a \<^verbatim>\<open>p\<close> element with one attribute and the text
  child "ab" (nodes 2 and 3, attribute array at 6, buffer at 7), followed in the document
  by a comment (node 5, buffer at 9); node 4 is a text node "cd" (buffer at 8) that
  \<^verbatim>\<open>create_text\<close> has just returned.
\<close>

definition demo_dom :: dom where
  "demo_dom =
     \<lparr>nodes = [2 \<mapsto> \<lparr>ntype = ELEMENT, ndata = Element_data HUBBUB_NS_HTML ''p'' 6 1,
                      nnext = 5, nprev = 0, nchild = 3, nparent = 1\<rparr>,
               3 \<mapsto> \<lparr>ntype = CHARACTER, ndata = Content 7,
                      nnext = 0, nprev = 0, nchild = 0, nparent = 2\<rparr>,
               4 \<mapsto> \<lparr>ntype = CHARACTER, ndata = Content 8,
                      nnext = 0, nprev = 0, nchild = 0, nparent = 0\<rparr>,
               5 \<mapsto> \<lparr>ntype = COMMENT, ndata = Content 9,
                      nnext = 0, nprev = 2, nchild = 0, nparent = 1\<rparr>],
      attr_arrays = [6 \<mapsto> [\<lparr>attr_ns = HUBBUB_NS_NULL, attr_name = ''class'', attr_value = ''c''\<rparr>]],
      buffers = [7 \<mapsto> ''ab'', 8 \<mapsto> ''cd'', 9 \<mapsto> ''note''],
      Document = 2,
      brk = 10\<rparr>"

text \<open>
  What a call returned, a node of the memory it left, that memory, and whether a parent
  has the given children in it.
\<close>

definition returned_node :: "(hubbub_error \<times> nat \<times> dom) option \<Rightarrow> nat option" where
  "returned_node r = map_option (\<lambda>(e, n, h). n) r"

definition node_after :: "(hubbub_error \<times> nat \<times> dom) option \<Rightarrow> nat \<Rightarrow> node_t option" where
  "node_after r a = (case r of None \<Rightarrow> None | Some (e, n, h) \<Rightarrow> nodes h a)"

definition memory_after :: "dom \<Rightarrow> (hubbub_error \<times> nat \<times> dom) option \<Rightarrow> dom" where
  "memory_after h0 r = (case r of None \<Rightarrow> h0 | Some (e, n, h) \<Rightarrow> h)"

definition children_after ::
  "(hubbub_error \<times> nat \<times> dom) option \<Rightarrow> nat \<Rightarrow> nat list \<Rightarrow> bool" where
  "children_after r parent xs =
     (case r of None \<Rightarrow> False | Some (e, n, h) \<Rightarrow> children h parent xs)"

section \<open>Properties of the element type enumeration\<close>

lemma element_types_nth_value: "element_types ! element_type_value t = t"
  by (cases t) (simp_all add: element_types_def)

lemma element_type_value_le: "element_type_value t \<le> 120"
  by (cases t) simp_all

lemma element_type_value_UNKNOWN: "(element_type_value t = 120) = (t = UNKNOWN)"
  by (cases t) simp_all

lemma element_types_values: "map element_type_value element_types = [0..<121]"
  by (simp add: element_types_def upt_rec)

lemma length_element_types: "length element_types = 121"
  by (simp add: element_types_def)

text \<open>
  C9. The element type is a closed enumeration: 120 recognised HTML, MathML and SVG element
  names and the distinguished \<open>UNKNOWN\<close>, 121 enumerators in all, pairwise distinct.
  \<open>UNKNOWN\<close> is the final enumerator: it has the largest value, 120, and every other
  element type has a smaller value and so differs from it.
\<close>

theorem element_type_enumeration:
  "length element_types = 121 \<and> distinct element_types \<and> set element_types = UNIV \<and>
   card (UNIV - {UNKNOWN}) = 120 \<and>
   last element_types = UNKNOWN \<and> element_type_value UNKNOWN = 120 \<and>
   (\<forall>t. (element_type_value t < element_type_value UNKNOWN) = (t \<noteq> UNKNOWN))"
proof -
  have d: "distinct element_types"
  proof -
    have "distinct (map element_type_value element_types)"
      by (simp only: element_types_values distinct_upt)
    then show ?thesis by (simp add: distinct_map)
  qed
  have s: "set element_types = UNIV"
  proof -
    have "t \<in> set element_types" for t
    proof -
      have "element_type_value t < length element_types"
        using element_type_value_le[of t] by (simp add: length_element_types)
      then have "element_types ! element_type_value t \<in> set element_types"
        by (rule nth_mem)
      then show ?thesis by (simp add: element_types_nth_value)
    qed
    then show ?thesis by blast
  qed
  have c: "card (UNIV :: element_type set) = 121"
    using distinct_card[OF d] by (simp add: s length_element_types)
  have c': "card (UNIV - {UNKNOWN}) = 120"
    using c by (simp add: card_Diff_singleton)
  have l: "last element_types = UNKNOWN"
    by (simp add: element_types_def)
  have v: "(element_type_value t < element_type_value UNKNOWN) = (t \<noteq> UNKNOWN)" for t
    using element_type_value_le[of t] element_type_value_UNKNOWN[of t] by auto
  from d s c' l v show ?thesis by (simp add: length_element_types)
qed

section \<open>Properties of the parser object\<close>

text \<open>
  C3. For a call of \<^verbatim>\<open>hubbub_parser_parse_chunk\<close> with a parser and data that are not
  NULL, the bytes are first appended to the input stream. If the append returns an error,
  that error is returned unchanged and the tokeniser is not run. Otherwise the tokeniser is
  run, on the stream as the append left it, and what it returns is returned unchanged.
\<close>

theorem parse_chunk_append_then_run:
  assumes "hubbub_inputstream_append env (stream p) (Some d) = (e1, s1)"
    and "hubbub_tokeniser_run env (s1, tok p, tb p) = (e2, s2, t2, b2)"
  shows "hubbub_parser_parse_chunk env (Some p) (Some d) =
           (if e1 \<noteq> HUBBUB_OK
            then (e1, Some (p\<lparr>stream := s1, calls := calls p @ [Inputstream_append (Some d)]\<rparr>))
            else (e2, Some (p\<lparr>stream := s2, tok := t2, tb := b2,
                    calls := calls p @ [Inputstream_append (Some d), Tokeniser_run]\<rparr>)))"
  using assms
  by (simp add: hubbub_parser_parse_chunk_def call_inputstream_append_def call_tokeniser_run_def)

theorem parse_chunk_append_then_run_witness:
  "hubbub_parser_parse_chunk (demo_env HUBBUB_NOMEM HUBBUB_OK) (Some demo_parser) (Some [1, 2]) =
     (HUBBUB_NOMEM, Some (demo_parser\<lparr>calls := [Inputstream_append (Some [1, 2])]\<rparr>))
   \<and> hubbub_parser_parse_chunk (demo_env HUBBUB_OK HUBBUB_PAUSED) (Some demo_parser) (Some [1, 2]) =
     (HUBBUB_PAUSED, Some (demo_parser\<lparr>tok := 2,
        calls := [Inputstream_append (Some [1, 2]), Tokeniser_run]\<rparr>))
   \<and> hubbub_parser_parse_chunk (demo_env HUBBUB_OK HUBBUB_OK) (Some demo_parser) (Some [1, 2]) =
     (HUBBUB_OK, Some (demo_parser\<lparr>tok := 2,
        calls := [Inputstream_append (Some [1, 2]), Tokeniser_run]\<rparr>))"
  using parse_chunk_append_then_run[of "demo_env HUBBUB_NOMEM HUBBUB_OK" demo_parser "[1, 2]"
      HUBBUB_NOMEM "[]" HUBBUB_OK "[]" 0 "Some ''treebuilder''"]
    parse_chunk_append_then_run[of "demo_env HUBBUB_OK HUBBUB_PAUSED" demo_parser "[1, 2]"
      HUBBUB_OK "[1, 2]" HUBBUB_PAUSED "[]" 2 "Some ''treebuilder''"]
    parse_chunk_append_then_run[of "demo_env HUBBUB_OK HUBBUB_OK" demo_parser "[1, 2]"
      HUBBUB_OK "[1, 2]" HUBBUB_OK "[]" 2 "Some ''treebuilder''"]
  by (simp add: demo_env_def demo_parser_def)

text \<open>
  C7, as amended. A \<^verbatim>\<open>hubbub_parser_setopt\<close> call with \<open>HUBBUB_PARSER_TOKEN_HANDLER\<close>
  and parameters that are not NULL destroys the treebuilder if there is one, leaves the
  parser without a treebuilder, and sets the token handler on the tokeniser, returning
  what the tokeniser returns. After that, a call with \<open>HUBBUB_PARSER_TREE_HANDLER\<close> or
  \<open>HUBBUB_PARSER_DOCUMENT_NODE\<close> changes nothing; it returns \<open>HUBBUB_OK\<close> when its
  parameters are not NULL and \<open>HUBBUB_BADPARM\<close> when they are.
\<close>

theorem setopt_token_handler_bypasses_treebuilder:
  assumes "hubbub_parser_setopt env (Some p) HUBBUB_PARSER_TOKEN_HANDLER (Some handler) = (r, q)"
    and "type = HUBBUB_PARSER_TREE_HANDLER \<or> type = HUBBUB_PARSER_DOCUMENT_NODE"
  shows "\<exists>p'. q = Some p' \<and> tb p' = None \<and> stream p' = stream p
           \<and> (r, tok p') = hubbub_tokeniser_setopt env
                 (case tb p of None \<Rightarrow> tok p | Some b \<Rightarrow> hubbub_treebuilder_destroy env b (tok p))
                 HUBBUB_TOKENISER_TOKEN_HANDLER handler
           \<and> calls p' = calls p @ (case tb p of None \<Rightarrow> [] | Some b \<Rightarrow> [Treebuilder_destroy])
                 @ [Tokeniser_setopt HUBBUB_TOKENISER_TOKEN_HANDLER handler]
           \<and> hubbub_parser_setopt env q type (Some params) = (HUBBUB_OK, q)
           \<and> hubbub_parser_setopt env q type None = (HUBBUB_BADPARM, q)"
  using assms
  by (auto simp add: hubbub_parser_setopt_def call_tokeniser_setopt_def Let_def
      split: option.splits prod.splits)

theorem setopt_token_handler_bypasses_treebuilder_witness:
  "hubbub_parser_setopt (demo_env HUBBUB_OK HUBBUB_OK) (Some demo_parser)
      HUBBUB_PARSER_TOKEN_HANDLER (Some 7) =
     (HUBBUB_OK, Some \<lparr>stream = [], tok = 7, tb = None,
        calls = [Treebuilder_destroy, Tokeniser_setopt HUBBUB_TOKENISER_TOKEN_HANDLER 7]\<rparr>)
   \<and> hubbub_parser_setopt (demo_env HUBBUB_OK HUBBUB_OK)
        (Some \<lparr>stream = [], tok = 7, tb = None,
           calls = [Treebuilder_destroy, Tokeniser_setopt HUBBUB_TOKENISER_TOKEN_HANDLER 7]\<rparr>)
        HUBBUB_PARSER_TREE_HANDLER (Some 9) =
     (HUBBUB_OK, Some \<lparr>stream = [], tok = 7, tb = None,
        calls = [Treebuilder_destroy, Tokeniser_setopt HUBBUB_TOKENISER_TOKEN_HANDLER 7]\<rparr>)"
proof -
  have first: "hubbub_parser_setopt (demo_env HUBBUB_OK HUBBUB_OK) (Some demo_parser)
      HUBBUB_PARSER_TOKEN_HANDLER (Some 7) =
     (HUBBUB_OK, Some \<lparr>stream = [], tok = 7, tb = None,
        calls = [Treebuilder_destroy, Tokeniser_setopt HUBBUB_TOKENISER_TOKEN_HANDLER 7]\<rparr>)"
    by (simp add: hubbub_parser_setopt_def call_tokeniser_setopt_def demo_env_def demo_parser_def)
  from setopt_token_handler_bypasses_treebuilder[OF first, of HUBBUB_PARSER_TREE_HANDLER 9]
  show ?thesis using first by simp
qed

text \<open>
  C7, as stated, says that every such later call returns \<open>HUBBUB_OK\<close>. It does not when
  the parameters are NULL: the guard at the head of the function answers
  \<open>HUBBUB_BADPARM\<close>.
\<close>

theorem setopt_tree_handler_null_params_counterexample:
  "tb (the (snd (hubbub_parser_setopt (demo_env HUBBUB_OK HUBBUB_OK) (Some demo_parser)
                  HUBBUB_PARSER_TOKEN_HANDLER (Some 7)))) = None
   \<and> fst (hubbub_parser_setopt (demo_env HUBBUB_OK HUBBUB_OK)
        (snd (hubbub_parser_setopt (demo_env HUBBUB_OK HUBBUB_OK) (Some demo_parser)
                HUBBUB_PARSER_TOKEN_HANDLER (Some 7)))
        HUBBUB_PARSER_TREE_HANDLER None) = HUBBUB_BADPARM
   \<and> fst (hubbub_parser_setopt (demo_env HUBBUB_OK HUBBUB_OK)
        (snd (hubbub_parser_setopt (demo_env HUBBUB_OK HUBBUB_OK) (Some demo_parser)
                HUBBUB_PARSER_TOKEN_HANDLER (Some 7)))
        HUBBUB_PARSER_DOCUMENT_NODE None) \<noteq> HUBBUB_OK"
  by (simp add: hubbub_parser_setopt_def call_tokeniser_setopt_def demo_env_def demo_parser_def)


section \<open>Properties of the "in select" insertion mode\<close>

subsection \<open>The stack helpers\<close>

lemma pop_until_split:
  "ec_type sel = type \<Longrightarrow> \<forall>e\<in>set upper. ec_type e \<noteq> type \<Longrightarrow>
   pop_until (upper @ sel # lower) type = (upper @ [sel], lower)"
  by (induction upper) auto

lemma pop_until_take_drop:
  "\<exists>k\<le>length es. pop_until es type = (take k es, drop k es)"
proof (induction es)
  case Nil
  then show ?case by simp
next
  case (Cons e es)
  then obtain k where k: "k \<le> length es" "pop_until es type = (take k es, drop k es)" by blast
  show ?case
  proof (cases "ec_type e = type")
    case True
    then have "pop_until (e # es) type = (take 1 (e # es), drop 1 (e # es))" by simp
    then show ?thesis by (intro exI[of _ 1]) simp
  next
    case False
    with k have "pop_until (e # es) type = (take (Suc k) (e # es), drop (Suc k) (e # es))" by simp
    with k(1) show ?thesis by (intro exI[of _ "Suc k"]) simp
  qed
qed

lemma unref_all_calls:
  "unref_all t es = t\<lparr>handler_calls := handler_calls t @ map (unref_of t) es\<rparr>"
proof (induction es arbitrary: t)
  case Nil
  then show ?case by simp
next
  case (Cons e es)
  have same: "unref_of (snd (call_unref_node t (Some (ec_node e)))) = unref_of t"
    by (rule ext) (simp add: unref_of_def call_unref_node_def Let_def)
  show ?case
    by (simp add: Cons same) (simp add: call_unref_node_def Let_def unref_of_def)
qed

lemma pop_until_close:
  "\<exists>k\<le>length (element_stack t). element_stack_pop_until t type = close_frames k t"
proof -
  obtain k where k: "k \<le> length (element_stack t)"
    "pop_until (element_stack t) type = (take k (element_stack t), drop k (element_stack t))"
    using pop_until_take_drop by blast
  have "element_stack_pop_until t type = close_frames k t"
    by (simp add: element_stack_pop_until_def k(2) unref_all_calls close_frames_def unref_of_def)
  with k(1) show ?thesis by blast
qed

lemma pop_and_unref_top:
  "element_stack t = e # es \<Longrightarrow>
   pop_and_unref (t, node) = (close_frames 1 t, Some (ec_node e))"
  by (simp add: pop_and_unref_def element_stack_pop_def call_unref_node_def Let_def
      close_frames_def unref_of_def)

lemma close_frames_0: "close_frames 0 t = t"
  by (simp add: close_frames_def)

lemma close_frames_add:
  "close_frames j (close_frames k t) = close_frames (k + j) t"
proof -
  have u: "unref_of (close_frames k t) = unref_of t"
    by (rule ext) (simp add: unref_of_def close_frames_def)
  show ?thesis
    unfolding close_frames_def[of j] u
    by (simp add: close_frames_def take_add add.commute[of j k])
qed

lemma current_node_nonempty: "current_node t = Some ty \<Longrightarrow> element_stack t \<noteq> []"
  by (auto simp: current_node_def)

lemma guarded_pop:
  assumes "c \<Longrightarrow> element_stack (fst s) \<noteq> []"
  shows "\<exists>k\<le>length (element_stack (fst s)).
           fst (if c then pop_and_unref s else s) = close_frames k (fst s)"
proof (cases c)
  case True
  with assms obtain e es where "element_stack (fst s) = e # es"
    by (cases "element_stack (fst s)") auto
  then have "fst (pop_and_unref s) = close_frames 1 (fst s)"
    "1 \<le> length (element_stack (fst s))"
    using pop_and_unref_top[of "fst s" e es "snd s"] by simp_all
  with True show ?thesis by auto
next
  case False
  then show ?thesis by (auto simp: close_frames_0 intro: exI[of _ 0])
qed

lemma guarded_pop_twice:
  assumes c: "c \<Longrightarrow> element_stack t \<noteq> []"
  shows "\<exists>k\<le>length (element_stack t).
           fst (let s1 = (if c then pop_and_unref (t, n) else (t, n));
                    s2 = (if current_node (fst s1) = Some ty then pop_and_unref s1 else s1)
                in s2) = close_frames k t"
proof -
  define s1 where "s1 = (if c then pop_and_unref (t, n) else (t, n))"
  obtain k where k: "k \<le> length (element_stack t)" "fst s1 = close_frames k t"
    using guarded_pop[of c "(t, n)"] c unfolding s1_def by auto
  have "\<exists>j\<le>length (element_stack (fst s1)).
          fst (if current_node (fst s1) = Some ty then pop_and_unref s1 else s1)
            = close_frames j (fst s1)"
    by (rule guarded_pop) (rule current_node_nonempty)
  then obtain j where j: "j \<le> length (element_stack (fst s1))"
    "fst (if current_node (fst s1) = Some ty then pop_and_unref s1 else s1)
       = close_frames j (fst s1)"
    by blast
  from j(1) k have "k + j \<le> length (element_stack t)"
    by (simp add: close_frames_def)
  moreover have "fst (if current_node (fst s1) = Some ty then pop_and_unref s1 else s1)
       = close_frames (k + j) t"
    using j(2) k(2) by (simp add: close_frames_add)
  ultimately show ?thesis
    unfolding Let_def s1_def[symmetric] by blast
qed

subsection \<open>A second option start tag closes the open option\<close>

text \<open>
  C1. In the "in select" insertion mode, a start tag whose element type is OPTION, arriving
  while the current node is an option element, pops exactly one frame (the current one)
  from the stack of open elements and makes exactly one \<^verbatim>\<open>unref_node\<close> call, against
  the node of the popped frame; only then is the new element inserted. The token is not
  reprocessed.
\<close>

theorem in_select_option_closes_option:
  assumes "element_type_from_name ops t (tag_name tag) = OPTION"
    and "element_stack t = e # es" and "ec_type e = OPTION"
  shows "handle_in_select ops t (HUBBUB_TOKEN_START_TAG tag) =
           (False, insert_element ops
              (t\<lparr>element_stack := es,
                 handler_calls := handler_calls t @ [unref_of t e]\<rparr>) tag)"
  using assms
  by (simp add: handle_in_select_def current_node_def pop_and_unref_def element_stack_pop_def
      call_unref_node_def unref_of_def Let_def)

theorem in_select_option_closes_option_witness:
  "handle_in_select demo_ops (demo_treebuilder HUBBUB_OK) (HUBBUB_TOKEN_START_TAG (demo_tag ''option'')) =
     (False,
      \<lparr>element_stack = [demo_frame OPTION 5, demo_frame SELECT 3, demo_frame BODY 2, demo_frame HTML 1],
       tree_handler = tree_handler (demo_treebuilder HUBBUB_OK),
       handler_calls = [Unref_node (Some 4) HUBBUB_OK],
       other = (6, ''in select'')\<rparr>)"
  using in_select_option_closes_option[of demo_ops "demo_treebuilder HUBBUB_OK" "demo_tag ''option''"
      "demo_frame OPTION 4" "[demo_frame SELECT 3, demo_frame BODY 2, demo_frame HTML 1]"]
  by (simp add: demo_ops_def demo_treebuilder_def demo_tag_def demo_frame_def
      demo_type_from_name_def unref_of_def)

subsection \<open>Errors of the tree handler\<close>

text \<open>
  C2. The claim is that a non-OK result of \<^verbatim>\<open>unref_node\<close> inside the handler aborts
  the token and reaches the caller. The code drops it: with a handler whose
  \<^verbatim>\<open>unref_node\<close> returns \<open>HUBBUB_NOMEM\<close>, the second option start tag is processed
  to the end (the new element is inserted) and the handler's only result is the reprocess
  flag, false, exactly as when \<^verbatim>\<open>unref_node\<close> succeeds.
\<close>

theorem in_select_ignores_unref_error:
  "handle_in_select demo_ops (demo_treebuilder HUBBUB_NOMEM) (HUBBUB_TOKEN_START_TAG (demo_tag ''option'')) =
     (False,
      \<lparr>element_stack = [demo_frame OPTION 5, demo_frame SELECT 3, demo_frame BODY 2, demo_frame HTML 1],
       tree_handler = tree_handler (demo_treebuilder HUBBUB_NOMEM),
       handler_calls = [Unref_node (Some 4) HUBBUB_NOMEM],
       other = (6, ''in select'')\<rparr>)"
  by (simp add: handle_in_select_def current_node_def pop_and_unref_def element_stack_pop_def
      call_unref_node_def Let_def demo_ops_def demo_treebuilder_def demo_tag_def demo_frame_def
      demo_type_from_name_def)

subsection \<open>Each frame the handler removes is released once\<close>

text \<open>
  C4. For every token, the handler's own work on the stack of open elements is to close
  some number \<open>k\<close> of frames from the top: exactly \<open>k\<close> frames are popped and exactly
  \<open>k\<close> \<^verbatim>\<open>unref_node\<close> calls are issued, one against the node of each popped frame, in
  the order of popping, and none against a node that stays on the stack. Whatever else
  happens to the treebuilder for that token happens inside one of the treebuilder functions
  the handler then hands it to.
\<close>

theorem in_select_closes_frames:
  "\<exists>k g. k \<le> length (element_stack t) \<and> g \<in> handed_on ops token \<and>
         snd (handle_in_select ops t token) = g (close_frames k t)"
proof (cases token)
  case (HUBBUB_TOKEN_DOCTYPE d)
  then show ?thesis
    by (intro exI[of _ 0] exI[of _ "\<lambda>t. t"]) (simp add: handle_in_select_def handed_on_def close_frames_0)
next
  case (HUBBUB_TOKEN_START_TAG tag)
  define type where "type = element_type_from_name ops t (tag_name tag)"
  have id_in: "(\<lambda>t. t) \<in> handed_on ops token" by (simp add: handed_on_def)
  have reset_in: "reset_insertion_mode ops \<in> handed_on ops token" by (simp add: handed_on_def)
  have body_in: "(\<lambda>t. process_tag_in_body ops t token) \<in> handed_on ops token"
    by (simp add: handed_on_def HUBBUB_TOKEN_START_TAG)
  have ins_in: "(\<lambda>t. insert_element ops t tag) \<in> handed_on ops token"
    by (simp add: handed_on_def HUBBUB_TOKEN_START_TAG)
  consider (html) "type = HTML" | (option) "type = OPTION" | (optgroup) "type = OPTGROUP"
    | (sel) "type = SELECT \<or> type = INPUT \<or> type = TEXTAREA"
    | (other) "type \<noteq> HTML" "type \<noteq> OPTION" "type \<noteq> OPTGROUP" "type \<noteq> SELECT"
        "type \<noteq> INPUT" "type \<noteq> TEXTAREA"
    by blast
  then show ?thesis
  proof cases
    case html
    have "snd (handle_in_select ops t token) = process_tag_in_body ops (close_frames 0 t) token"
      using html by (simp add: handle_in_select_def HUBBUB_TOKEN_START_TAG type_def close_frames_0)
    with body_in show ?thesis by (intro exI[of _ 0] exI[of _ "\<lambda>t. process_tag_in_body ops t token"]) simp
  next
    case option
    obtain k where k: "k \<le> length (element_stack t)"
      "fst (if current_node t = Some OPTION then pop_and_unref (t, None) else (t, None))
         = close_frames k t"
      using guarded_pop[of "current_node t = Some OPTION" "(t, None)"] current_node_nonempty[of t] by auto
    have "snd (handle_in_select ops t token) = insert_element ops (close_frames k t) tag"
      using option k(2)
      by (simp add: handle_in_select_def HUBBUB_TOKEN_START_TAG type_def[symmetric] Let_def)
    with k(1) ins_in show ?thesis
      by (intro exI[of _ k] exI[of _ "\<lambda>t. insert_element ops t tag"]) simp
  next
    case optgroup
    obtain k where k: "k \<le> length (element_stack t)"
      "fst (let s1 = (if current_node t = Some OPTION then pop_and_unref (t, None) else (t, None));
                s2 = (if current_node (fst s1) = Some OPTGROUP then pop_and_unref s1 else s1)
            in s2) = close_frames k t"
      using guarded_pop_twice[of "current_node t = Some OPTION" t None OPTGROUP]
        current_node_nonempty by blast
    have "snd (handle_in_select ops t token) = insert_element ops (close_frames k t) tag"
      using optgroup k(2)
      by (simp add: handle_in_select_def HUBBUB_TOKEN_START_TAG type_def[symmetric] Let_def)
    with k(1) ins_in show ?thesis
      by (intro exI[of _ k] exI[of _ "\<lambda>t. insert_element ops t tag"]) simp
  next
    case sel
    show ?thesis
    proof (cases "element_in_scope ops t SELECT True")
      case True
      obtain k where k: "k \<le> length (element_stack t)"
        "element_stack_pop_until t SELECT = close_frames k t"
        using pop_until_close by blast
      have "snd (handle_in_select ops t token) = reset_insertion_mode ops (close_frames k t)"
        using sel True k(2)
        by (auto simp add: handle_in_select_def HUBBUB_TOKEN_START_TAG type_def[symmetric] Let_def)
      with k(1) reset_in show ?thesis
        by (intro exI[of _ k] exI[of _ "reset_insertion_mode ops"]) simp
    next
      case False
      have "snd (handle_in_select ops t token) = close_frames 0 t"
        using sel False
        by (auto simp add: handle_in_select_def HUBBUB_TOKEN_START_TAG type_def[symmetric] Let_def close_frames_0)
      with id_in show ?thesis by (intro exI[of _ 0] exI[of _ "\<lambda>t. t"]) simp
    qed
  next
    case other
    have "snd (handle_in_select ops t token) = close_frames 0 t"
      using other
      by (simp add: handle_in_select_def HUBBUB_TOKEN_START_TAG type_def[symmetric] Let_def close_frames_0)
    with id_in show ?thesis by (intro exI[of _ 0] exI[of _ "\<lambda>t. t"]) simp
  qed
next
  case (HUBBUB_TOKEN_END_TAG tag)
  define type where "type = element_type_from_name ops t (tag_name tag)"
  have id_in: "(\<lambda>t. t) \<in> handed_on ops token" by (simp add: handed_on_def)
  have reset_in: "reset_insertion_mode ops \<in> handed_on ops token" by (simp add: handed_on_def)
  consider (optgroup) "type = OPTGROUP" | (option) "type = OPTION" | (sel) "type = SELECT"
    | (other) "type \<noteq> OPTION" "type \<noteq> OPTGROUP" "type \<noteq> SELECT"
    by blast
  then show ?thesis
  proof cases
    case optgroup
    obtain k where k: "k \<le> length (element_stack t)"
      "fst (let s1 = (if current_node t = Some OPTION \<and> prev_node t = Some OPTGROUP
                      then pop_and_unref (t, None) else (t, None));
                s2 = (if current_node (fst s1) = Some OPTGROUP then pop_and_unref s1 else s1)
            in s2) = close_frames k t"
      using guarded_pop_twice[of "current_node t = Some OPTION \<and> prev_node t = Some OPTGROUP"
          t None OPTGROUP]
        current_node_nonempty by blast
    have "snd (handle_in_select ops t token) = close_frames k t"
      using optgroup k(2)
      by (simp add: handle_in_select_def HUBBUB_TOKEN_END_TAG type_def[symmetric] Let_def)
    with k(1) id_in show ?thesis by (intro exI[of _ k] exI[of _ "\<lambda>t. t"]) simp
  next
    case option
    obtain k where k: "k \<le> length (element_stack t)"
      "fst (if current_node t = Some OPTION then pop_and_unref (t, None) else (t, None))
         = close_frames k t"
      using guarded_pop[of "current_node t = Some OPTION" "(t, None)"] current_node_nonempty[of t] by auto
    have "snd (handle_in_select ops t token) = close_frames k t"
      using option k(2)
      by (simp add: handle_in_select_def HUBBUB_TOKEN_END_TAG type_def[symmetric] Let_def)
    with k(1) id_in show ?thesis by (intro exI[of _ k] exI[of _ "\<lambda>t. t"]) simp
  next
    case sel
    show ?thesis
    proof (cases "element_in_scope ops t SELECT True")
      case True
      obtain k where k: "k \<le> length (element_stack t)"
        "element_stack_pop_until t SELECT = close_frames k t"
        using pop_until_close by blast
      have "snd (handle_in_select ops t token) = reset_insertion_mode ops (close_frames k t)"
        using sel True k(2)
        by (simp add: handle_in_select_def HUBBUB_TOKEN_END_TAG type_def[symmetric] Let_def)
      with k(1) reset_in show ?thesis
        by (intro exI[of _ k] exI[of _ "reset_insertion_mode ops"]) simp
    next
      case False
      have "snd (handle_in_select ops t token) = close_frames 0 t"
        using sel False
        by (simp add: handle_in_select_def HUBBUB_TOKEN_END_TAG type_def[symmetric] Let_def close_frames_0)
      with id_in show ?thesis by (intro exI[of _ 0] exI[of _ "\<lambda>t. t"]) simp
    qed
  next
    case other
    have "snd (handle_in_select ops t token) = close_frames 0 t"
      using other
      by (simp add: handle_in_select_def HUBBUB_TOKEN_END_TAG type_def[symmetric] Let_def close_frames_0)
    with id_in show ?thesis by (intro exI[of _ 0] exI[of _ "\<lambda>t. t"]) simp
  qed
next
  case (HUBBUB_TOKEN_COMMENT c)
  have "snd (handle_in_select ops t token) =
        (\<lambda>t. process_comment_append ops t token
                 (case element_stack t of [] \<Rightarrow> None | e # es \<Rightarrow> Some (ec_node e))) (close_frames 0 t)"
    by (simp add: handle_in_select_def HUBBUB_TOKEN_COMMENT close_frames_0)
  moreover have "(\<lambda>t. process_comment_append ops t token
                 (case element_stack t of [] \<Rightarrow> None | e # es \<Rightarrow> Some (ec_node e)))
       \<in> handed_on ops token"
    by (simp add: handed_on_def HUBBUB_TOKEN_COMMENT)
  ultimately show ?thesis
    by (intro exI[of _ 0] exI[of _ "\<lambda>t. process_comment_append ops t token
                 (case element_stack t of [] \<Rightarrow> None | e # es \<Rightarrow> Some (ec_node e))"]) simp
next
  case (HUBBUB_TOKEN_CHARACTER s)
  have "snd (handle_in_select ops t token) = (\<lambda>t. append_text ops t s) (close_frames 0 t)"
    by (simp add: handle_in_select_def HUBBUB_TOKEN_CHARACTER close_frames_0)
  moreover have "(\<lambda>t. append_text ops t s) \<in> handed_on ops token"
    by (simp add: handed_on_def HUBBUB_TOKEN_CHARACTER)
  ultimately show ?thesis
    by (intro exI[of _ 0] exI[of _ "\<lambda>t. append_text ops t s"]) simp
next
  case HUBBUB_TOKEN_EOF
  then show ?thesis
    by (intro exI[of _ 0] exI[of _ "\<lambda>t. t"]) (simp add: handle_in_select_def handed_on_def close_frames_0)
qed

theorem in_select_closes_frames_witness:
  "snd (handle_in_select demo_ops (demo_treebuilder HUBBUB_OK)
          (HUBBUB_TOKEN_END_TAG (demo_tag ''select''))) =
     reset_insertion_mode demo_ops (close_frames 2 (demo_treebuilder HUBBUB_OK))
   \<and> (\<exists>k g. k \<le> length (element_stack (demo_treebuilder HUBBUB_OK)) \<and>
          g \<in> handed_on demo_ops (HUBBUB_TOKEN_END_TAG (demo_tag ''select'')) \<and>
          snd (handle_in_select demo_ops (demo_treebuilder HUBBUB_OK)
                 (HUBBUB_TOKEN_END_TAG (demo_tag ''select''))) =
            g (close_frames k (demo_treebuilder HUBBUB_OK)))"
proof -
  have "snd (handle_in_select demo_ops (demo_treebuilder HUBBUB_OK)
          (HUBBUB_TOKEN_END_TAG (demo_tag ''select''))) =
     reset_insertion_mode demo_ops (close_frames 2 (demo_treebuilder HUBBUB_OK))"
    by (simp add: handle_in_select_def element_stack_pop_until_def call_unref_node_def
        close_frames_def unref_of_def Let_def demo_ops_def demo_treebuilder_def demo_tag_def
        demo_frame_def demo_type_from_name_def)
  then show ?thesis
    using in_select_closes_frames[of "demo_treebuilder HUBBUB_OK" demo_ops
        "HUBBUB_TOKEN_END_TAG (demo_tag ''select'')"]
    by simp
qed

subsection \<open>Tokens that are dropped\<close>

text \<open>
  C8. The claim is that the handler reports a parse error for every DOCTYPE token. The code
  returns with the reprocess flag false and the treebuilder exactly as it was: nothing is
  reported, no callback is made. (The same holds for a start tag that is none of html,
  option, optgroup, select, input and textarea, below.)
\<close>

theorem in_select_doctype_no_parse_error:
  "handle_in_select ops t (HUBBUB_TOKEN_DOCTYPE d) = (False, t)"
  by (simp add: handle_in_select_def)

lemma in_select_unrecognised_start_tag_no_parse_error:
  assumes "element_type_from_name ops t (tag_name tag) = type"
    and "type \<noteq> HTML" "type \<noteq> OPTION" "type \<noteq> OPTGROUP"
    and "type \<noteq> SELECT" "type \<noteq> INPUT" "type \<noteq> TEXTAREA"
  shows "handle_in_select ops t (HUBBUB_TOKEN_START_TAG tag) = (False, t)"
  using assms by (simp add: handle_in_select_def)

subsection \<open>select, input and textarea start tags\<close>

text \<open>
  C10. In the "in select" insertion mode, a start tag of type SELECT, INPUT or TEXTAREA,
  when a select element is in scope, pops the stack of open elements up to and including
  the topmost select frame (releasing the node of each popped frame) and resets the
  insertion mode; the token is reprocessed if and only if its type is INPUT or TEXTAREA.
\<close>

theorem in_select_nested_select_input_textarea:
  assumes "element_type_from_name ops t (tag_name tag) = type"
    and "type = SELECT \<or> type = INPUT \<or> type = TEXTAREA"
    and "element_in_scope ops t SELECT True"
    and "element_stack t = upper @ sel # lower"
    and "ec_type sel = SELECT" and "list_all (\<lambda>e. ec_type e \<noteq> SELECT) upper"
  shows "handle_in_select ops t (HUBBUB_TOKEN_START_TAG tag) =
           (type = INPUT \<or> type = TEXTAREA,
            reset_insertion_mode ops
              (t\<lparr>element_stack := lower,
                 handler_calls := handler_calls t @ map (unref_of t) (upper @ [sel])\<rparr>))"
proof -
  have "pop_until (element_stack t) SELECT = (upper @ [sel], lower)"
    using assms(4-6) by (simp add: pop_until_split list_all_iff)
  then have "element_stack_pop_until t SELECT =
      t\<lparr>element_stack := lower, handler_calls := handler_calls t @ map (unref_of t) (upper @ [sel])\<rparr>"
    by (simp add: element_stack_pop_until_def unref_all_calls unref_of_def)
  with assms(1-3) show ?thesis
    by (auto simp add: handle_in_select_def Let_def)
qed

theorem in_select_nested_select_input_textarea_witness:
  "handle_in_select demo_ops (demo_treebuilder HUBBUB_OK) (HUBBUB_TOKEN_START_TAG (demo_tag ''input'')) =
     (True,
      \<lparr>element_stack = [demo_frame BODY 2, demo_frame HTML 1],
       tree_handler = tree_handler (demo_treebuilder HUBBUB_OK),
       handler_calls = [Unref_node (Some 4) HUBBUB_OK, Unref_node (Some 3) HUBBUB_OK],
       other = (5, ''in body'')\<rparr>)
   \<and> fst (handle_in_select demo_ops (demo_treebuilder HUBBUB_OK)
            (HUBBUB_TOKEN_START_TAG (demo_tag ''select''))) = False"
  using in_select_nested_select_input_textarea[of demo_ops "demo_treebuilder HUBBUB_OK"
      "demo_tag ''input''" INPUT "[demo_frame OPTION 4]" "demo_frame SELECT 3"
      "[demo_frame BODY 2, demo_frame HTML 1]"]
    in_select_nested_select_input_textarea[of demo_ops "demo_treebuilder HUBBUB_OK"
      "demo_tag ''select''" SELECT "[demo_frame OPTION 4]" "demo_frame SELECT 3"
      "[demo_frame BODY 2, demo_frame HTML 1]"]
  by (simp add: demo_ops_def demo_treebuilder_def demo_tag_def demo_frame_def
      demo_type_from_name_def unref_of_def)

section \<open>Properties of the sample tree handler\<close>

subsection \<open>Sibling chains\<close>

lemma siblings_cong:
  "list_all (\<lambda>x. map_option nnext (ns' x) = map_option nnext (ns x)) xs \<Longrightarrow>
   siblings ns' a xs = siblings ns a xs"
proof (induction xs arbitrary: a)
  case Nil
  then show ?case by simp
next
  case (Cons x xs)
  then have "map_option nnext (ns' x) = map_option nnext (ns x)" by simp
  moreover from Cons have "siblings ns' b xs = siblings ns b xs" for b by simp
  ultimately show ?case by (cases "ns x"; cases "ns' x") auto
qed

lemma siblings_unique: "siblings ns a xs \<Longrightarrow> siblings ns a ys \<Longrightarrow> xs = ys"
proof (induction xs arbitrary: a ys)
  case Nil
  then show ?case by (cases ys) auto
next
  case (Cons x xs)
  then show ?case by (cases ys) (auto split: option.splits)
qed

lemma siblings_suffix: "siblings ns a (xs @ y # ys) \<Longrightarrow> siblings ns y (y # ys)"
proof (induction xs arbitrary: a)
  case Nil
  then show ?case by auto
next
  case (Cons x xs)
  from Cons.prems obtain n :: node_t where "siblings ns (nnext n) (xs @ y # ys)"
    by (cases "ns a") auto
  then show ?case by (rule Cons.IH)
qed

lemma siblings_head_notin_tail:
  assumes "siblings ns x (x # xs)"
  shows "x \<notin> set xs"
proof
  assume "x \<in> set xs"
  then obtain ys zs where xs: "xs = ys @ x # zs" by (auto simp: in_set_conv_decomp)
  with assms have "siblings ns x ((x # ys) @ x # zs)" by simp
  then have "siblings ns x (x # zs)" by (rule siblings_suffix)
  with assms have "x # xs = x # zs" by (rule siblings_unique)
  with xs show False by simp
qed

lemma siblings_distinct: "siblings ns a xs \<Longrightarrow> distinct xs"
proof (induction xs arbitrary: a)
  case Nil
  then show ?case by simp
next
  case (Cons x xs)
  from Cons.prems have "a = x" by simp
  with Cons.prems have "x \<notin> set xs" using siblings_head_notin_tail by blast
  moreover from Cons have "distinct xs" by (auto split: option.splits)
  ultimately show ?case by simp
qed

lemma last_sibling_chain:
  "siblings ns a xs \<Longrightarrow> xs \<noteq> [] \<Longrightarrow> length xs \<le> fuel \<Longrightarrow>
   last_sibling fuel ns a = Some (last xs)"
proof (induction xs arbitrary: a fuel)
  case Nil
  then show ?case by simp
next
  case (Cons x xs)
  then obtain k where k: "fuel = Suc k" by (cases fuel) auto
  from Cons.prems obtain n where n: "a = x" "ns x = Some n" "siblings ns (nnext n) xs"
    by (auto split: option.splits)
  show ?case
  proof (cases xs)
    case Nil
    with n show ?thesis by (simp add: k)
  next
    case (Cons y ys)
    with n have "nnext n \<noteq> 0" by auto
    moreover have "last_sibling k ns (nnext n) = Some (last xs)"
      using Cons.IH[OF n(3)] Cons Cons.prems(3) k by simp
    ultimately show ?thesis using n Cons by (simp add: k)
  qed
qed

lemma siblings_snoc:
  assumes "siblings ns a xs" and "xs \<noteq> []" and "ns (last xs) = Some l"
    and "c \<notin> set xs" and "c \<noteq> 0" and "nnext cn = 0"
  shows "siblings (ns(last xs \<mapsto> l\<lparr>nnext := c\<rparr>, c \<mapsto> cn)) a (xs @ [c])"
  using assms(1-4)
proof (induction xs arbitrary: a)
  case Nil
  then show ?case by simp
next
  case (Cons x xs)
  from Cons.prems(1) obtain n where n: "a = x" "x \<noteq> 0" "ns x = Some n" "siblings ns (nnext n) xs"
    by (cases "ns a") auto
  from Cons.prems(4) have xc: "x \<noteq> c" by auto
  define M where "M = ns(last (x # xs) \<mapsto> l\<lparr>nnext := c\<rparr>, c \<mapsto> cn)"
  have Mc: "M c = Some cn" by (simp add: M_def)
  have c_end: "siblings M c [c]" using Mc assms(5,6) by simp
  show ?case
  proof (cases "xs = []")
    case True
    with n Cons.prems(3) have "l = n" by simp
    with True xc have "M x = Some (n\<lparr>nnext := c\<rparr>)" by (simp add: M_def)
    with n(1,2) c_end True show ?thesis unfolding M_def[symmetric] by simp
  next
    case False
    have "distinct (x # xs)" using Cons.prems(1) by (rule siblings_distinct)
    with False have xl: "x \<noteq> last xs" by auto
    from False have lastx: "last (x # xs) = last xs" by simp
    have Mx: "M x = Some n" using xc xl n(3) False by (simp add: M_def)
    have l3: "ns (last xs) = Some l" using Cons.prems(3) lastx by simp
    have c4: "c \<notin> set xs" using Cons.prems(4) by simp
    have M_eq: "M = ns(last xs \<mapsto> l\<lparr>nnext := c\<rparr>, c \<mapsto> cn)" by (simp only: M_def lastx)
    have "siblings M (nnext n) (xs @ [c])"
      unfolding M_eq by (rule Cons.IH[OF n(4) False l3 c4])
    with n(1,2) Mx show ?thesis unfolding M_def[symmetric] by simp
  qed
qed

lemma siblings_nonempty_head: "siblings ns a xs \<Longrightarrow> xs \<noteq> [] \<Longrightarrow> a \<noteq> 0 \<and> a = hd xs"
  by (cases xs) auto

lemma siblings_last_node:
  "siblings ns a xs \<Longrightarrow> xs \<noteq> [] \<Longrightarrow> \<exists>l. ns (last xs) = Some l"
proof (induction xs arbitrary: a)
  case Nil
  then show ?case by simp
next
  case (Cons x xs)
  from Cons.prems(1) obtain n where n: "a = x" "ns x = Some n" "siblings ns (nnext n) xs"
    by (cases "ns a") auto
  show ?case
  proof (cases "xs = []")
    case True
    with n show ?thesis by simp
  next
    case False
    with Cons.IH[OF n(3)] show ?thesis by simp
  qed
qed

subsection \<open>append_child\<close>

text \<open>
  C6, as amended. \<^verbatim>\<open>append_child\<close> coalesces adjacent text, for every call in which the
  child is not already one of the children of the parent and, where the child and the
  last existing child are both character nodes, the two do not hold the same content
  buffer. Let \<open>xs\<close> be the children of the parent before the call, and let the loop have
  fuel for the length of \<open>xs\<close>. If the child is a character node and the last existing
  child is a character node, the content of the child is concatenated onto that of the
  last existing child (whether or not \<^verbatim>\<open>realloc\<close> moves the buffer), the children of
  the parent are still \<open>xs\<close>, and the node returned is that last child, which is not
  the child passed. In every other case the child is linked as the new last child, its
  type and data are as before, and it is the node returned.
\<close>

theorem append_child_coalesces_text:
  assumes kids: "children h parent xs"
    and null: "nodes h 0 = None"
    and c: "nodes h child = Some c"
    and fresh: "child \<notin> set xs"
    and cons: "list_all (\<lambda>a. case nodes h a of None \<Rightarrow> False | Some n \<Rightarrow> consistent h n)
                 (child # xs)"
    and bufs: "coalesces h xs child \<Longrightarrow> buffer_of h child \<noteq> buffer_of h (last xs)"
    and fuel: "length xs \<le> fuel"
  shows "\<exists>h'. append_child fuel moved h parent child =
                Some (HUBBUB_OK, if coalesces h xs child then last xs else child, h')
            \<and> (if coalesces h xs child
               then last xs \<noteq> child \<and> children h' parent xs
                    \<and> content_of h' (last xs) = content_of h (last xs) @ content_of h child
               else children h' parent (xs @ [child])
                    \<and> map_option ndata (nodes h' child) = Some (ndata c)
                    \<and> map_option ntype (nodes h' child) = Some (ntype c))"
proof -
  define c' where "c' = c\<lparr>nparent := parent, nnext := 0, nprev := 0\<rparr>"
  define h1 where "h1 = h\<lparr>nodes := (nodes h)(child \<mapsto> c')\<rparr>"
  have s1: "set_node h child (\<lambda>n. n\<lparr>nparent := parent, nnext := 0, nprev := 0\<rparr>) = Some h1"
    by (simp add: set_node_def c h1_def c'_def)
  have child0: "child \<noteq> 0"
  proof
    assume "child = 0"
    with null c show False by simp
  qed
  from kids obtain f where f: "first_child h parent = Some f" "siblings (nodes h) f xs"
    by (auto simp: children_def split: option.splits)
  have same_next: "list_all (\<lambda>x. map_option nnext (nodes h1 x) = map_option nnext (nodes h x)) xs"
    using fresh by (auto simp: list_all_iff h1_def)
  have sib1: "siblings (nodes h1) f xs"
    using f(2) siblings_cong[OF same_next] by simp
  have h1_child: "nodes h1 child = Some c'" by (simp add: h1_def)
  have first1: "first_child h1 parent = Some f"
    using f(1) by (auto simp: first_child_def h1_def c'_def c)
  define E where
    "E = (if parent = 1 then
            (if Document h1 \<noteq> 0 then Some (Document h1, h1)
             else Some (0, h1\<lparr>Document := child\<rparr>))
          else
            (case nodes h1 parent of
               None \<Rightarrow> None
             | Some tparent \<Rightarrow>
                 if nchild tparent = 0
                 then map_option (Pair 0) (set_node h1 parent (\<lambda>n. n\<lparr>nchild := child\<rparr>))
                 else Some (nchild tparent, h1)))"
  define finish where
    "finish = (\<lambda>ins0 h2.
       if ins0 \<noteq> 0 then
         (case last_sibling fuel (nodes h2) ins0 of
            None \<Rightarrow> None
          | Some ins \<Rightarrow>
              (case (nodes h2 child, nodes h2 ins) of
                 (Some tchild, Some tins) \<Rightarrow>
                   if ntype tchild = CHARACTER \<and> ntype tins = CHARACTER then
                     (case (ndata tins, ndata tchild) of
                        (Content p, Content q) \<Rightarrow>
                          (case realloc_strcat moved h2 p q of
                             None \<Rightarrow> None
                           | Some (p', h3) \<Rightarrow>
                               (case set_node h3 ins (\<lambda>n. n\<lparr>ndata := Content p'\<rparr>) of
                                  None \<Rightarrow> None
                                | Some h4 \<Rightarrow> Some (HUBBUB_OK, ins, h4)))
                      | _ \<Rightarrow> None)
                   else
                     (case set_node h2 ins (\<lambda>n. n\<lparr>nnext := child\<rparr>) of
                        None \<Rightarrow> None
                      | Some h3 \<Rightarrow>
                          (case set_node h3 child (\<lambda>n. n\<lparr>nprev := ins\<rparr>) of
                             None \<Rightarrow> None
                           | Some h4 \<Rightarrow> Some (HUBBUB_OK, child, h4)))
               | _ \<Rightarrow> None))
       else Some (HUBBUB_OK, child, h2))"
  have unf: "append_child fuel moved h parent child =
               (case E of None \<Rightarrow> None | Some (ins0, h2) \<Rightarrow> finish ins0 h2)"
    by (simp only: append_child_def s1 E_def finish_def option.case)
  show ?thesis
  proof (cases "xs = []")
    case True
    then have f0: "f = 0" using f(2) by simp
    have nc: "\<not> coalesces h xs child" using True by (simp add: coalesces_def)
    show ?thesis
    proof (cases "parent = 1")
      case True
      then have "Document h1 = 0" using first1 f0 by (simp add: first_child_def)
      with True have "E = Some (0, h1\<lparr>Document := child\<rparr>)" by (simp add: E_def)
      then have "append_child fuel moved h parent child = Some (HUBBUB_OK, child, h1\<lparr>Document := child\<rparr>)"
        by (simp add: unf finish_def)
      moreover have "children (h1\<lparr>Document := child\<rparr>) parent ([] @ [child])"
        using True child0 by (simp add: children_def first_child_def h1_def c'_def)
      moreover have "map_option ndata (nodes (h1\<lparr>Document := child\<rparr>) child) = Some (ndata c)"
        "map_option ntype (nodes (h1\<lparr>Document := child\<rparr>) child) = Some (ntype c)"
        by (simp_all add: h1_def c'_def)
      ultimately show ?thesis using nc \<open>xs = []\<close> by simp
    next
      case False
      with first1 f0 obtain p1 where p1: "nodes h1 parent = Some p1" "nchild p1 = 0"
        by (auto simp: first_child_def)
      define h2 where "h2 = h1\<lparr>nodes := (nodes h1)(parent \<mapsto> p1\<lparr>nchild := child\<rparr>)\<rparr>"
      have "E = Some (0, h2)"
        using False p1 by (simp add: E_def set_node_def h2_def)
      then have "append_child fuel moved h parent child = Some (HUBBUB_OK, child, h2)"
        by (simp add: unf finish_def)
      moreover have "children h2 parent ([] @ [child])"
        using False child0 p1 h1_child
        by (auto simp: children_def first_child_def h2_def c'_def)
      moreover have "map_option ndata (nodes h2 child) = Some (ndata c)"
        "map_option ntype (nodes h2 child) = Some (ntype c)"
        using p1 h1_child by (auto simp: h2_def c'_def)
      ultimately show ?thesis using nc \<open>xs = []\<close> by simp
    qed
  next
    case False
    then have fhd: "f \<noteq> 0" using f(2) siblings_nonempty_head by blast
    have link: "E = Some (f, h1)"
      using first1 fhd by (auto simp: first_child_def E_def)
    have walk: "last_sibling fuel (nodes h1) f = Some (last xs)"
      using sib1 False fuel by (rule last_sibling_chain)
    have lc: "last xs \<noteq> child" using False fresh last_in_set by metis
    obtain l where l: "nodes h (last xs) = Some l"
      using siblings_last_node[OF f(2) False] by blast
    then have h1_last: "nodes h1 (last xs) = Some l" using lc by (simp add: h1_def)
    have cons_c: "consistent h c" using cons c by simp
    have cons_l: "consistent h l"
    proof -
      have "last xs \<in> set xs" using False by simp
      with cons l show ?thesis by (auto simp: list_all_iff)
    qed
    have co_eq: "coalesces h xs child = (ntype c = CHARACTER \<and> ntype l = CHARACTER)"
      using False by (simp add: coalesces_def is_character_def c l)
    show ?thesis
    proof (cases "coalesces h xs child")
      case True
      with co_eq have ty: "ntype c = CHARACTER" "ntype l = CHARACTER" by simp_all
      from cons_c ty obtain q sb where q: "ndata c = Content q" "buffers h q = Some sb"
        by (auto simp: consistent_def split: node_data.splits option.splits)
      from cons_l ty obtain p sa where p: "ndata l = Content p" "buffers h p = Some sa"
        by (auto simp: consistent_def split: node_data.splits option.splits)
      have pq: "p \<noteq> q"
        using bufs[OF True] by (auto simp: buffer_of_def c l p q)
      have b1: "buffers h1 = buffers h" by (simp add: h1_def)
      define p' where "p' = (if moved then brk h1 else p)"
      define hr where
        "hr = (if moved
               then h1\<lparr>buffers := (buffers h1)(p := None, brk h1 \<mapsto> sa @ sb),
                       brk := Suc (brk h1)\<rparr>
               else h1\<lparr>buffers := (buffers h1)(p \<mapsto> sa @ sb)\<rparr>)"
      have rs: "realloc_strcat moved h1 p q = Some (p', hr)"
        using p(2) q(2) pq by (simp add: realloc_strcat_def b1 p'_def hr_def)
      have hr: "nodes hr = nodes h1" "Document hr = Document h1" "buffers hr p' = Some (sa @ sb)"
        by (simp_all add: hr_def p'_def)
      define h3 where "h3 = hr\<lparr>nodes := (nodes hr)(last xs \<mapsto> l\<lparr>ndata := Content p'\<rparr>)\<rparr>"
      have h3: "append_child fuel moved h parent child = Some (HUBBUB_OK, last xs, h3)"
        "nodes h3 = (nodes h1)(last xs \<mapsto> l\<lparr>ndata := Content p'\<rparr>)"
        "buffers h3 p' = Some (sa @ sb)" "Document h3 = Document h1"
        using fhd ty p(1) q(1)
        by (simp_all add: unf finish_def link walk h1_child h1_last rs set_node_def hr h3_def
            c'_def)
      have "children h3 parent xs"
      proof -
        have "first_child h3 parent = Some f"
          using first1 h1_last by (auto simp: first_child_def h3(2,4))
        moreover have "siblings (nodes h3) f xs"
        proof -
          have "list_all (\<lambda>x. map_option nnext (nodes h3 x) = map_option nnext (nodes h1 x)) xs"
            using h1_last by (auto simp: list_all_iff h3(2))
          from siblings_cong[OF this] sib1 show ?thesis by simp
        qed
        ultimately show ?thesis by (simp add: children_def)
      qed
      moreover have "content_of h3 (last xs) = content_of h (last xs) @ content_of h child"
        by (simp add: content_of_def buffer_of_def h3(2,3) l c p q)
      ultimately show ?thesis using True lc h3(1) by auto
    next
      case False
      with co_eq have nty: "\<not> (ntype c = CHARACTER \<and> ntype l = CHARACTER)" by simp
      define h4 where
        "h4 = h1\<lparr>nodes := (nodes h1)(last xs \<mapsto> l\<lparr>nnext := child\<rparr>, child \<mapsto> c'\<lparr>nprev := last xs\<rparr>)\<rparr>"
      have "append_child fuel moved h parent child = Some (HUBBUB_OK, child, h4)"
        using fhd nty lc
        by (auto simp add: unf finish_def link walk h1_child h1_last set_node_def h4_def c'_def)
      moreover have "children h4 parent (xs @ [child])"
      proof -
        have "map_option nchild (nodes h4 parent) = map_option nchild (nodes h1 parent)"
          using h1_last h1_child by (auto simp: h4_def)
        then have "first_child h4 parent = Some f"
          using first1 by (auto simp: first_child_def h4_def)
        moreover have "siblings (nodes h4) f (xs @ [child])"
          unfolding h4_def
          using siblings_snoc[OF sib1 \<open>xs \<noteq> []\<close> h1_last fresh child0, of "c'\<lparr>nprev := last xs\<rparr>"]
          by (simp add: c'_def)
        ultimately show ?thesis by (simp add: children_def)
      qed
      moreover have "map_option ndata (nodes h4 child) = Some (ndata c)"
        "map_option ntype (nodes h4 child) = Some (ntype c)"
        by (simp_all add: h4_def c'_def)
      ultimately show ?thesis using False by simp
    qed
  qed
qed

theorem append_child_coalesces_text_witness:
  "(\<exists>h'. append_child 1 False demo_dom 2 4 = Some (HUBBUB_OK, 3, h') \<and> children h' 2 [3]
          \<and> content_of h' 3 = ''abcd'')
   \<and> (\<exists>h'. append_child 1 True demo_dom 2 4 = Some (HUBBUB_OK, 3, h') \<and> children h' 2 [3]
          \<and> content_of h' 3 = ''abcd'')
   \<and> (\<exists>h'. append_child 2 False demo_dom 1 4 = Some (HUBBUB_OK, 4, h')
          \<and> children h' 1 [2, 5, 4])"
proof -
  have n4: "nodes demo_dom 4 = Some \<lparr>ntype = CHARACTER, ndata = Content 8,
                      nnext = 0, nprev = 0, nchild = 0, nparent = 0\<rparr>"
    and null: "nodes demo_dom 0 = None"
    by (simp_all add: demo_dom_def)
  have kids2: "children demo_dom 2 [3]" and kids1: "children demo_dom 1 [2, 5]"
    by (simp_all add: demo_dom_def children_def first_child_def)
  have cons2: "list_all (\<lambda>a. case nodes demo_dom a of None \<Rightarrow> False
                              | Some n \<Rightarrow> consistent demo_dom n) (4 # [3])"
    and cons1: "list_all (\<lambda>a. case nodes demo_dom a of None \<Rightarrow> False
                              | Some n \<Rightarrow> consistent demo_dom n) (4 # [2, 5])"
    by (simp_all add: demo_dom_def consistent_def)
  have co2: "coalesces demo_dom [3] 4" and co1: "\<not> coalesces demo_dom [2, 5] 4"
    by (simp_all add: demo_dom_def coalesces_def is_character_def)
  have bufs2: "buffer_of demo_dom 4 \<noteq> buffer_of demo_dom (last [3])"
    by (simp add: demo_dom_def buffer_of_def)
  have strs: "content_of demo_dom 3 = ''ab''" "content_of demo_dom 4 = ''cd''"
    by (simp_all add: demo_dom_def content_of_def buffer_of_def)
  have "\<exists>h'. append_child 1 mv demo_dom 2 4 = Some (HUBBUB_OK, 3, h') \<and> children h' 2 [3]
          \<and> content_of h' 3 = ''abcd''" for mv
    using append_child_coalesces_text[OF kids2 null n4 _ cons2 bufs2, of 1 mv] co2 strs by simp
  moreover have "\<exists>h'. append_child 2 False demo_dom 1 4 = Some (HUBBUB_OK, 4, h')
          \<and> children h' 1 [2, 5, 4]"
    using append_child_coalesces_text[OF kids1 null n4 _ cons1, of 2 False] co1 by auto
  ultimately show ?thesis by blast
qed

text \<open>
  C6, as stated, speaks of every call. It fails where the child is already a child of the
  parent: appending the \<^verbatim>\<open>p\<close> element (node 2, not a character node) to the document,
  whose children are nodes 2 and 5, returns node 2, but node 2 is then its own \<^verbatim>\<open>next\<close>
  and \<^verbatim>\<open>prev\<close>, so the children of the document are not 2, 5, 2 and the child is not a
  last child. It also fails where the child holds the buffer of the last existing child:
  for a shallow clone (node 10) of the text node 3, appended to the parent of node 3, both
  are character nodes, yet no contents are concatenated: the concatenation of a buffer
  onto itself is undefined, whichever way \<^verbatim>\<open>realloc\<close> goes.
\<close>

theorem append_child_repeated_child_counterexample:
  "returned_node (append_child 2 False demo_dom 1 2) = Some 2
   \<and> map_option nnext (node_after (append_child 2 False demo_dom 1 2) 2) = Some 2
   \<and> map_option nprev (node_after (append_child 2 False demo_dom 1 2) 2) = Some 2
   \<and> \<not> children_after (append_child 2 False demo_dom 1 2) 1 [2, 5, 2]
   \<and> \<not> coalesces demo_dom [2, 5] 2
   \<and> returned_node (clone_node 1 demo_dom 3 False) = Some 10
   \<and> coalesces (memory_after demo_dom (clone_node 1 demo_dom 3 False)) [3] 10
   \<and> children (memory_after demo_dom (clone_node 1 demo_dom 3 False)) 2 [3]
   \<and> append_child 1 False (memory_after demo_dom (clone_node 1 demo_dom 3 False)) 2 10 = None
   \<and> append_child 1 True (memory_after demo_dom (clone_node 1 demo_dom 3 False)) 2 10 = None"
  by (simp add: returned_node_def node_after_def children_after_def memory_after_def
      append_child_def realloc_strcat_def set_node_def children_def first_child_def
      coalesces_def is_character_def demo_dom_def numeral_2_eq_2 Let_def)

subsection \<open>clone_node\<close>

text \<open>
  A shallow clone is a copy of the struct with the four links cleared: all other fields,
  the address of the attribute array among them, are those of the original.
\<close>

lemma clone_node_shallow:
  "nodes h node = Some old_node \<Longrightarrow>
   clone_node (Suc fuel) h node False =
     Some (HUBBUB_OK, brk h,
           h\<lparr>nodes := (nodes h)(brk h \<mapsto>
                  old_node\<lparr>nchild := 0, nparent := 0, nnext := 0, nprev := 0\<rparr>),
              brk := Suc (brk h)\<rparr>)"
  by (simp add: Let_def)

text \<open>
  C5. The claim is that a clone shares no attribute storage with the original and that a
  deep clone duplicates the children of the node only. In the small document, the shallow
  clone of the \<^verbatim>\<open>p\<close> element (node 10) holds the attribute array address 6 of the
  original (node 2), which still holds it too; and its deep clone has, besides the copy 12
  of its text child, a \<^verbatim>\<open>next\<close> sibling 11 that is a copy of the comment following the
  original.
\<close>

theorem clone_node_shares_attrs_and_clones_siblings:
  "returned_node (clone_node 1 demo_dom 2 False) = Some 10
   \<and> node_after (clone_node 1 demo_dom 2 False) 10 =
       Some \<lparr>ntype = ELEMENT, ndata = Element_data HUBBUB_NS_HTML ''p'' 6 1,
             nnext = 0, nprev = 0, nchild = 0, nparent = 0\<rparr>
   \<and> node_after (clone_node 1 demo_dom 2 False) 2 =
       Some \<lparr>ntype = ELEMENT, ndata = Element_data HUBBUB_NS_HTML ''p'' 6 1,
             nnext = 5, nprev = 0, nchild = 3, nparent = 1\<rparr>
   \<and> returned_node (clone_node 2 demo_dom 2 True) = Some 10
   \<and> node_after (clone_node 2 demo_dom 2 True) 10 =
       Some \<lparr>ntype = ELEMENT, ndata = Element_data HUBBUB_NS_HTML ''p'' 6 1,
             nnext = 11, nprev = 0, nchild = 12, nparent = 0\<rparr>
   \<and> node_after (clone_node 2 demo_dom 2 True) 11 =
       Some \<lparr>ntype = COMMENT, ndata = Content 9,
             nnext = 0, nprev = 10, nchild = 0, nparent = 0\<rparr>
   \<and> node_after (clone_node 2 demo_dom 2 True) 12 =
       Some \<lparr>ntype = CHARACTER, ndata = Content 7,
             nnext = 0, nprev = 0, nchild = 0, nparent = 10\<rparr>"
  by (simp add: returned_node_def node_after_def demo_dom_def set_node_def numeral_2_eq_2 Let_def)

end
